theory Spec2Isabelle
  imports Complex_Main
begin

section \<open>Data model\<close>

text \<open>
  Genomic positions are the values \<open>parseInt\<close> returns and the integer constants of
  \<open>GENE_MAP\<close>; they are modelled as mathematical integers (the source's Number is a
  double, which is exact on integers up to \<open>2^53\<close>).  A subtype region and a gene
  feature both carry the fields \<open>start\<close> and \<open>end\<close>; \<open>end\<close> is written \<open>end'\<close>.
\<close>

text \<open>
  A JavaScript string is a sequence of UTF-16 code units, here natural numbers.  The
  input text is the decoded content of the file.  \<open>js\<close> turns a literal of ASCII
  characters into its code units.  Colours are constants of the program's tables and
  stay plain strings.
\<close>

type_synonym jsstring = "nat list"

abbreviation (input) js :: "string \<Rightarrow> jsstring" where
  "js s \<equiv> map of_char s"

record span =
  start :: int
  end' :: int

record region = span +
  subtype :: jsstring
  color :: string

record breakpoint =
  position :: int
  displayValue :: int
  isFirst :: bool
  isLast :: bool

section \<open>calculateBreakpoints (lines 186-198)\<close>

text \<open>
  \<open>[...regions].sort((a, b) => a.start - b.start)\<close> sorts a copy, ascending by
  \<open>start\<close>; Array.prototype.sort is stable, as \<open>sort_key\<close> is.
\<close>

definition sortedRegions :: "region list \<Rightarrow> region list" where
  "sortedRegions regions = sort_key start regions"

text \<open>
  The \<open>for\<close> loop over \<open>sortedRegions\<close>: \<open>i\<close> is the loop index, \<open>n\<close> is
  \<open>sortedRegions.length\<close>, the list is what remains from index \<open>i\<close> on.  Every iteration
  pushes the region's start; the last iteration pushes the region's end as well.
\<close>

fun bpLoop :: "nat \<Rightarrow> nat \<Rightarrow> region list \<Rightarrow> breakpoint list" where
  "bpLoop i n [] = []"
| "bpLoop i n (r # rs) =
     \<lparr>position = start r, displayValue = start r, isFirst = (i = 0), isLast = False\<rparr>
     # (if int i = int n - 1
        then [\<lparr>position = end' r, displayValue = end' r, isFirst = False, isLast = True\<rparr>]
        else [])
     @ bpLoop (i + 1) n rs"

definition calculateBreakpoints :: "region list \<Rightarrow> breakpoint list" where
  "calculateBreakpoints regions =
     (if regions = [] then []
      else bpLoop 0 (length (sortedRegions regions)) (sortedRegions regions))"

section \<open>Strings\<close>

text \<open>
  The code units that \<open>trim\<close>, the regular expression class \<open>\s\<close> and \<open>parseInt\<close>
  treat as white space: the WhiteSpace and LineTerminator code points of ECMAScript
  (TAB, LF, VT, FF, CR, SP, NBSP, U+1680, U+2000 to U+200A, U+2028, U+2029, U+202F,
  U+205F, U+3000 and U+FEFF).
\<close>

definition isWhiteSpace :: "nat \<Rightarrow> bool" where
  "isWhiteSpace c =
     (c = 0x09 \<or> c = 0x0A \<or> c = 0x0B \<or> c = 0x0C \<or> c = 0x0D \<or> c = 0x20 \<or> c = 0xA0 \<or>
      c = 0x1680 \<or> (0x2000 \<le> c \<and> c \<le> 0x200A) \<or> c = 0x2028 \<or> c = 0x2029 \<or>
      c = 0x202F \<or> c = 0x205F \<or> c = 0x3000 \<or> c = 0xFEFF)"

text \<open>\<open>s.trim()\<close>\<close>

definition trim :: "jsstring \<Rightarrow> jsstring" where
  "trim s = rev (dropWhile isWhiteSpace (rev (dropWhile isWhiteSpace s)))"

text \<open>\<open>s.startsWith(p)\<close>\<close>

definition startsWith :: "jsstring \<Rightarrow> jsstring \<Rightarrow> bool" where
  "startsWith s p = (take (length p) s = p)"

text \<open>
  \<open>s.split(c)\<close> for a one-character separator: the pieces between the occurrences of
  \<open>c\<close>, empty pieces included; the empty string gives one empty piece.
\<close>

fun splitChar :: "nat \<Rightarrow> jsstring \<Rightarrow> jsstring list" where
  "splitChar c [] = [[]]"
| "splitChar c (x # xs) =
     (if x = c then [] # splitChar c xs
      else (case splitChar c xs of [] \<Rightarrow> [[x]] | p # ps \<Rightarrow> (x # p) # ps))"

text \<open>
  \<open>s.split(/[\s\t]+/)\<close>: the pieces between the maximal runs of white space.  A run at
  the very start or end leaves an empty piece there, as in JavaScript.
\<close>

function splitWs :: "jsstring \<Rightarrow> jsstring list" where
  "splitWs [] = [[]]"
| "splitWs (x # xs) =
     (if isWhiteSpace x then [] # splitWs (dropWhile isWhiteSpace xs)
      else (case splitWs xs of [] \<Rightarrow> [[x]] | p # ps \<Rightarrow> (x # p) # ps))"
  by pat_completeness auto
termination
  by (relation "measure length") (auto simp: length_dropWhile_le less_Suc_eq_le)

text \<open>\<open>parts.join(' ')\<close>\<close>

fun joinSpace :: "jsstring list \<Rightarrow> jsstring" where
  "joinSpace [] = []"
| "joinSpace [p] = p"
| "joinSpace (p # q # ps) = p @ js '' '' @ joinSpace (q # ps)"

section \<open>parseInt with radix 10\<close>

text \<open>The digits \<open>0\<close> to \<open>9\<close> are the code units 48 to 57.\<close>

definition isDigit :: "nat \<Rightarrow> bool" where
  "isDigit c = (48 \<le> c \<and> c \<le> 57)"

definition digitValue :: "nat \<Rightarrow> nat" where
  "digitValue c = c - 48"

definition decimalValue :: "jsstring \<Rightarrow> nat" where
  "decimalValue ds = foldl (\<lambda>a c. 10 * a + digitValue c) 0 ds"

text \<open>
  \<open>parseInt(s, 10)\<close>: leading white space is dropped, one sign is read, then the longest
  run of decimal digits; whatever follows is ignored.  No digit at all gives NaN, which
  is \<open>None\<close> here, so that \<open>isNaN\<close> is \<open>(= None)\<close>.
\<close>

definition parseInt :: "jsstring \<Rightarrow> int option" where
  "parseInt s =
     (let t = dropWhile isWhiteSpace s;
          sign = (case t of c # _ \<Rightarrow> if c = of_char CHR ''-'' then - 1 else 1
                  | [] \<Rightarrow> (1::int));
          u = (case t of c # r \<Rightarrow>
                 if c = of_char CHR ''-'' \<or> c = of_char CHR ''+'' then r else t
               | [] \<Rightarrow> t);
          ds = takeWhile isDigit u
      in if ds = [] then None else Some (sign * int (decimalValue ds)))"

section \<open>Colours: getColor (lines 64-89)\<close>

definition DEFAULT_COLORS :: "(jsstring \<times> string) list" where
  "DEFAULT_COLORS =
     [(js ''A'', ''#FF0000''), (js ''A1'', ''#FF5700''), (js ''A2'', ''#FF7E5E''),
      (js ''B'', ''#3F98F2''), (js ''C'', ''#9D6039''), (js ''D'', ''#E3A1C9''),
      (js ''E'', ''#FFFF64''), (js ''F'', ''#BEE120''), (js ''F1'', ''#C5CAFF''),
      (js ''F2'', ''#97D7FF''), (js ''G'', ''#4FAE57''), (js ''H'', ''#FFD700''),
      (js ''J'', ''#20D7CF''), (js ''J1'', ''#FFB600''), (js ''J2'', ''#FFD700''),
      (js ''K'', ''#7C45D9''), (js ''01'', ''#7C45D9''), (js ''02'', ''#D7B320''),
      (js ''?'', ''#DCDCDC''), (js ''U'', ''#DCDCDC'')]"

definition FALLBACK_COLORS :: "string list" where
  "FALLBACK_COLORS =
     [''#FF6347'', ''#20B2AA'', ''#DDA0DD'', ''#F0E68C'', ''#BC8F8F'',
      ''#4682B4'', ''#D2691E'', ''#6B8E23'', ''#CD5C5C'', ''#708090'']"

text \<open>
  The two module variables: the own properties of the object \<open>assignedColors\<close> and the
  counter \<open>fallbackColorIndex\<close>.
\<close>

record registry =
  assignedColors :: "jsstring \<rightharpoonup> string"
  fallbackColorIndex :: nat

definition initRegistry :: registry where
  "initRegistry = \<lparr>assignedColors = Map.empty, fallbackColorIndex = 0\<rparr>"

datatype error = TypeError

text \<open>
  \<open>assignedColors\<close> is a plain object \<open>{}\<close> used as a dictionary, so two keys behave
  differently from all others:
  \<^item> \<open>assignedColors[''__proto__''] = color\<close> runs the \<open>__proto__\<close> setter inherited
    from \<open>Object.prototype\<close>, which ignores a value that is a string: no own property
    is created;
  \<^item> once \<open>assignedColors[''hasOwnProperty''] = color\<close> has created an own property,
    \<open>assignedColors.hasOwnProperty\<close> is that string, and calling it throws a TypeError.
  \<open>DEFAULT_COLORS\<close> is never written, so its \<open>hasOwnProperty\<close> is always the inherited
  method.  The result is the colour together with the updated module variables.
\<close>

definition getColor :: "registry \<Rightarrow> jsstring \<Rightarrow> error + (string \<times> registry)" where
  "getColor reg subtype0 =
     (case map_of DEFAULT_COLORS subtype0 of
        Some c \<Rightarrow> Inr (c, reg)
      | None \<Rightarrow>
          if assignedColors reg (js ''hasOwnProperty'') \<noteq> None then Inl TypeError
          else (case assignedColors reg subtype0 of
                  Some c \<Rightarrow> Inr (c, reg)
                | None \<Rightarrow>
                    let color0 = FALLBACK_COLORS ! (fallbackColorIndex reg mod length FALLBACK_COLORS)
                    in Inr (color0,
                            reg\<lparr>assignedColors :=
                                  (if subtype0 = js ''__proto__'' then assignedColors reg
                                   else (assignedColors reg)(subtype0 \<mapsto> color0)),
                                fallbackColorIndex := fallbackColorIndex reg + 1\<rparr>)))"

section \<open>parseInput (lines 125-184)\<close>

text \<open>
  What the parser writes to the console: \<open>console.log\<close> of a header line (line 144),
  \<open>console.warn\<close> of a data line with fewer than three fields, with its line number
  (line 156), and \<open>console.warn\<close> that no header line was found (line 180).
\<close>

datatype message =
    LogHeaderFound jsstring
  | WarnInvalidLine nat jsstring
  | WarnNoHeader

text \<open>
  The local variables of \<open>parseInput\<close> that the loop changes (\<open>regionsAcc\<close> is the
  array \<open>regions\<close>), the console and the module variables of \<open>getColor\<close>.
\<close>

record pstate =
  regionsAcc :: "region list"
  headerFound :: bool
  console :: "message list"
  colors :: registry

text \<open>
  One iteration of the \<open>for\<close> loop, for the line \<open>lines[i]\<close>; \<open>continue\<close> is the
  return of the state.
\<close>

definition parseLine :: "nat \<Rightarrow> jsstring \<Rightarrow> pstate \<Rightarrow> error + pstate" where
  "parseLine i raw st =
     (let line = trim raw in
      if line = [] then Inr st
      else if startsWith line (js ''#'') then Inr st
      else if startsWith line (js ''>'')
        then Inr (st\<lparr>headerFound := True, console := console st @ [LogHeaderFound line]\<rparr>)
      else if \<not> headerFound st then Inr st
      else
        let parts = splitWs line in
        if length parts < 3
          then Inr (st\<lparr>console := console st @ [WarnInvalidLine (i + 1) line]\<rparr>)
        else
          (case (parseInt (parts ! 0), parseInt (parts ! 1)) of
             (Some start0, Some end0) \<Rightarrow>
               let subtype0 = joinSpace (drop 2 parts) in
               if subtype0 = [] then Inr st
               else
                 let finalStart = (if start0 > end0 then end0 else start0);
                     finalEnd = (if start0 > end0 then start0 else end0)
                 in (case getColor (colors st) subtype0 of
                       Inl e \<Rightarrow> Inl e
                     | Inr (c, reg') \<Rightarrow>
                         Inr (st\<lparr>regionsAcc := regionsAcc st @
                                   [\<lparr>start = finalStart, end' = finalEnd,
                                     subtype = subtype0, color = c\<rparr>],
                                 colors := reg'\<rparr>))
           | _ \<Rightarrow> Inr st))"

fun parseLoop :: "nat \<Rightarrow> jsstring list \<Rightarrow> pstate \<Rightarrow> error + pstate" where
  "parseLoop i [] st = Inr st"
| "parseLoop i (raw # rest) st =
     (case parseLine i raw st of
        Inl e \<Rightarrow> Inl e
      | Inr st' \<Rightarrow> parseLoop (i + 1) rest st')"

text \<open>
  \<open>parseInput\<close> started with the module variables \<open>reg0\<close>.  It returns the regions, what
  it wrote to the console and the module variables afterwards, or the exception thrown
  by \<open>getColor\<close>.
\<close>

definition parseInput ::
  "registry \<Rightarrow> jsstring \<Rightarrow> error + (region list \<times> message list \<times> registry)" where
  "parseInput reg0 text =
     (if text = [] \<or> trim text = [] then Inr ([], [], reg0)
      else
        (case parseLoop 0 (splitChar 0x0A text)
                \<lparr>regionsAcc = [], headerFound = False, console = [], colors = reg0\<rparr> of
           Inl e \<Rightarrow> Inl e
         | Inr st \<Rightarrow>
             Inr (regionsAcc st,
                  console st @ (if \<not> headerFound st then [WarnNoHeader] else []),
                  colors st)))"

section \<open>Gene map and render configuration (lines 94-120)\<close>

record gene = span +
  name :: jsstring
  row :: int
  bgColor :: string
  noOverlay :: bool

text \<open>
  The table as written; \<open>noOverlay\<close> is \<open>True\<close> where the source sets it and \<open>False\<close>
  where the property is absent.  No function of the program reads it.
\<close>

definition GENE_MAP :: "gene list" where
  \<open>GENE_MAP =
     [\<lparr>start = 1, end' = 634, name = js ''5' LTR'', row = 1, bgColor = ''#CCCCCC'', noOverlay = False\<rparr>,
      \<lparr>start = 790, end' = 2292, name = js ''gag'', row = 1, bgColor = ''#CCCCCC'', noOverlay = False\<rparr>,
      \<lparr>start = 5041, end' = 5619, name = js ''vif'', row = 1, bgColor = ''#CCCCCC'', noOverlay = False\<rparr>,
      \<lparr>start = 8379, end' = 8469, name = [], row = 1, bgColor = ''#CCCCCC'', noOverlay = False\<rparr>,
      \<lparr>start = 8797, end' = 9417, name = js ''nef'', row = 1, bgColor = ''#FFFFFF'', noOverlay = False\<rparr>,
      \<lparr>start = 5831, end' = 6045, name = [], row = 2, bgColor = ''#FFB6C1'', noOverlay = True\<rparr>,
      \<lparr>start = 6062, end' = 6310, name = js ''vpu'', row = 2, bgColor = ''#CCCCCC'', noOverlay = False\<rparr>,
      \<lparr>start = 8379, end' = 8653, name = [], row = 2, bgColor = ''#CCCCCC'', noOverlay = False\<rparr>,
      \<lparr>start = 9086, end' = 9719, name = js ''3' LTR'', row = 2, bgColor = ''#FFFFFF'', noOverlay = False\<rparr>,
      \<lparr>start = 2085, end' = 5096, name = js ''pol'', row = 3, bgColor = ''#CCCCCC'', noOverlay = False\<rparr>,
      \<lparr>start = 5559, end' = 5850, name = js ''vpr'', row = 3, bgColor = ''#CCCCCC'', noOverlay = False\<rparr>,
      \<lparr>start = 5970, end' = 6045, name = [], row = 3, bgColor = ''#CCCCCC'', noOverlay = False\<rparr>,
      \<lparr>start = 6225, end' = 8795, name = js ''env'', row = 3, bgColor = ''#CCCCCC'', noOverlay = False\<rparr>]\<close>

text \<open>
  Pixel coordinates are JavaScript Numbers.  They are modelled as exact rationals: the
  rounding of the double arithmetic is not part of the model.
\<close>

record margin =
  m_top :: rat
  m_right :: rat
  m_bottom :: rat
  m_left :: rat

record render_config =
  c_width :: rat
  c_height :: rat
  c_margin :: margin
  geneRowHeight :: rat
  geneRowGap :: rat
  axisRange :: "rat \<times> rat"

definition RENDER_CONFIG :: render_config where
  "RENDER_CONFIG =
     \<lparr>c_width = 900, c_height = 300,
      c_margin = \<lparr>m_top = 60, m_right = 50, m_bottom = 80, m_left = 50\<rparr>,
      geneRowHeight = 25, geneRowGap = 10, axisRange = (0, 9719)\<rparr>"

section \<open>createXScale (lines 200-207)\<close>

text \<open>The function that \<open>createXScale()\<close> returns, applied to \<open>v\<close>.\<close>

definition createXScale :: "rat \<Rightarrow> rat" where
  "createXScale v =
     (let domain = axisRange RENDER_CONFIG;
          range0 = (m_left (c_margin RENDER_CONFIG),
                    c_width RENDER_CONFIG - m_right (c_margin RENDER_CONFIG));
          ratio = (v - fst domain) / (snd domain - fst domain)
      in fst range0 + ratio * (snd range0 - fst range0))"

section \<open>drawToContext (lines 212-311)\<close>

text \<open>
  The calls made on the 2D context, in order.  Assignments to \<open>ctx.fillStyle\<close>,
  \<open>ctx.strokeStyle\<close>, \<open>ctx.lineWidth\<close>, \<open>ctx.globalAlpha\<close>, \<open>ctx.font\<close>,
  \<open>ctx.textAlign\<close> and \<open>ctx.textBaseline\<close> are operations too.  The two fonts are
  named by their size in pixels; \<open>RotateMinusHalfPi\<close> is \<open>ctx.rotate(-Math.PI / 2)\<close>.
\<close>

datatype op =
    SetFillStyle string
  | SetStrokeStyle string
  | SetLineWidth rat
  | SetGlobalAlpha rat
  | SetFont nat
  | SetTextAlign string
  | SetTextBaseline string
  | FillRect rat rat rat rat
  | StrokeRect rat rat rat rat
  | FillText jsstring rat rat
  | BeginPath
  | MoveTo rat rat
  | LineTo rat rat
  | Stroke
  | Save
  | Restore
  | Translate rat rat
  | RotateMinusHalfPi

definition getRowY :: "int \<Rightarrow> rat" where
  "getRowY row0 =
     m_top (c_margin RENDER_CONFIG) + 20
       + (of_int row0 - 1) * (geneRowHeight RENDER_CONFIG + geneRowGap RENDER_CONFIG)"

text \<open>
  \<open>n.toString()\<close> for an integer \<open>n\<close>: its decimal digits, with a minus sign when
  negative (the exponent notation that JavaScript uses from \<open>10^21\<close> on is not modelled).
\<close>

fun digits :: "nat \<Rightarrow> jsstring" where
  "digits n = (if n < 10 then [48 + n] else digits (n div 10) @ [48 + n mod 10])"

definition toString :: "int \<Rightarrow> jsstring" where
  "toString n = (if n < 0 then js ''-'' @ digits (nat (- n)) else digits (nat n))"

text \<open>Pass 1: the background of one gene (the body of the first \<open>forEach\<close>).\<close>

definition drawGene :: "gene \<Rightarrow> op list" where
  \<open>drawGene g =
     (let x = createXScale (of_int (start g));
          y = getRowY (row g);
          w = createXScale (of_int (end' g)) - createXScale (of_int (start g))
      in [SetFillStyle (bgColor g), FillRect x y w (geneRowHeight RENDER_CONFIG)]
         @ (if name g = js ''nef'' \<or> name g = js ''3' LTR''
            then [SetStrokeStyle ''#000000'', SetLineWidth (2 / 10),
                  StrokeRect x y w (geneRowHeight RENDER_CONFIG)]
            else []))\<close>

text \<open>
  Pass 2: the body of the inner \<open>forEach\<close> for one region and one gene (lines 235-242).
\<close>

definition overlayGene :: "region \<Rightarrow> gene \<Rightarrow> op list" where
  "overlayGene r g =
     (let overlapStart = max (start r) (start g);
          overlapEnd = min (end' r) (end' g)
      in if overlapStart < overlapEnd
         then [SetGlobalAlpha (8 / 10), SetFillStyle (color r),
               FillRect (createXScale (of_int overlapStart)) (getRowY (row g))
                        (createXScale (of_int overlapEnd) - createXScale (of_int overlapStart))
                        (geneRowHeight RENDER_CONFIG),
               SetGlobalAlpha 1]
         else [])"

definition overlayPass :: "region list \<Rightarrow> op list" where
  "overlayPass rs = concat (map (\<lambda>r. concat (map (overlayGene r) GENE_MAP)) rs)"

text \<open>Pass 3: the names of the genes that have one.\<close>

definition drawGeneName :: "gene \<Rightarrow> op list" where
  "drawGeneName g =
     (let x = createXScale (of_int (start g))
                + (createXScale (of_int (end' g)) - createXScale (of_int (start g))) / 2;
          y = getRowY (row g) + geneRowHeight RENDER_CONFIG / 2
      in [FillText (name g) x y])"

definition namePass :: "op list" where
  "namePass =
     [SetFont 12, SetFillStyle ''#333333'', SetTextAlign ''center'', SetTextBaseline ''middle'']
     @ concat (map drawGeneName (filter (\<lambda>d. name d \<noteq> []) GENE_MAP))"

text \<open>Pass 4: the connectors \<open>tat\<close> and \<open>rev\<close>.\<close>

definition connectorPass :: "op list" where
  "connectorPass =
     (let tatFromX = createXScale 6045; tatToX = createXScale 8379;
          tatFromY = getRowY 2 - 5; tatToY = getRowY 1 + geneRowHeight RENDER_CONFIG / 2;
          revFromX = createXScale 6045; revToX = createXScale 8379;
          revFromY = getRowY 3; revToY = getRowY 2 + geneRowHeight RENDER_CONFIG / 2;
          revMidY = revFromY - 5; revTurnX = createXScale 7200
      in [SetStrokeStyle ''#666666'', SetLineWidth 1,
          BeginPath, MoveTo tatFromX tatFromY, LineTo tatFromX tatToY, LineTo tatToX tatToY, Stroke,
          FillText (js ''tat'') ((tatFromX + tatToX) / 2) (tatToY - 5),
          BeginPath, MoveTo revFromX revFromY, LineTo revFromX revMidY, LineTo revTurnX revMidY,
          LineTo revToX revToY, Stroke,
          FillText (js ''rev'') ((revFromX + revTurnX) / 2 + 30) (revMidY - 5)])"

text \<open>Pass 5: a tick and a rotated number for every breakpoint.\<close>

definition drawBreakpoint :: "breakpoint \<Rightarrow> op list" where
  "drawBreakpoint bp =
     (let tickStartY = m_top (c_margin RENDER_CONFIG) + 20 - 11;
          tickEndY = tickStartY + 8;
          numberY = tickStartY - 3;
          x = createXScale (of_int (position bp))
      in [BeginPath, MoveTo x tickStartY, LineTo x tickEndY, Stroke,
          Save, Translate (x + 4) numberY, RotateMinusHalfPi,
          SetTextAlign ''left'', FillText (toString (displayValue bp)) 0 0, Restore])"

definition breakpointPass :: "region list \<Rightarrow> op list" where
  "breakpointPass rs =
     [SetStrokeStyle ''#333333'', SetFont 11]
     @ concat (map drawBreakpoint (calculateBreakpoints rs))"

text \<open>Pass 6: the axis and its eleven ticks.\<close>

definition axisY :: rat where
  "axisY = getRowY 3 + geneRowHeight RENDER_CONFIG + 10"

definition drawAxisTick :: "int \<Rightarrow> op list" where
  "drawAxisTick v =
     (let x = createXScale (of_int v)
      in [BeginPath, MoveTo x axisY, LineTo x (axisY + 5), Stroke,
          SetFillStyle ''#7f8c8d'', SetFont 10, FillText (toString v) x (axisY + 15)])"

definition axisPass :: "op list" where
  "axisPass =
     [SetStrokeStyle ''#bdc3c7'', BeginPath,
      MoveTo (m_left (c_margin RENDER_CONFIG)) axisY,
      LineTo (c_width RENDER_CONFIG - m_right (c_margin RENDER_CONFIG)) axisY, Stroke]
     @ concat (map drawAxisTick [0, 1000, 2000, 3000, 4000, 5000, 6000, 7000, 8000, 9000, 9719])"

text \<open>
  Pass 7: the legend.  \<open>subtypeMap\<close> is a \<open>Map\<close>; it keeps its entries in insertion
  order, so it is a list of pairs, and \<open>set\<close> is called only for a key it does not have.
\<close>

definition subtypeMapAdd ::
  "(jsstring \<times> string) list \<Rightarrow> region \<Rightarrow> (jsstring \<times> string) list" where
  "subtypeMapAdd m r = (if subtype r \<in> set (map fst m) then m else m @ [(subtype r, color r)])"

definition legendData :: "region list \<Rightarrow> (jsstring \<times> string) list" where
  "legendData rs = foldl subtypeMapAdd [] rs"

definition drawLegendItem :: "nat \<times> (jsstring \<times> string) \<Rightarrow> op list" where
  "drawLegendItem e =
     (let i = fst e; item = snd e;
          legendY = c_height RENDER_CONFIG - 30;
          x = m_left (c_margin RENDER_CONFIG) + of_nat i * 80
      in [SetFillStyle (snd item), FillRect x legendY 15 15,
          SetStrokeStyle ''#999999'', SetLineWidth (5 / 10), StrokeRect x legendY 15 15,
          SetFillStyle ''#333333'', SetFont 11, SetTextAlign ''left'',
          FillText (fst item) (x + 20) (legendY + 12)])"

definition legendPass :: "region list \<Rightarrow> op list" where
  "legendPass rs = concat (map drawLegendItem (enumerate 0 (legendData rs)))"

text \<open>
  All the calls of one run of \<open>drawToContext\<close>, in order, when the array \<open>regions\<close>
  holds \<open>rs\<close> during the whole run.
\<close>

definition drawToContext :: "rat \<Rightarrow> rat \<Rightarrow> region list \<Rightarrow> op list" where
  "drawToContext width height rs =
     [SetFillStyle ''white'', FillRect 0 0 width height]
     @ concat (map drawGene GENE_MAP)
     @ overlayPass rs
     @ namePass
     @ connectorPass
     @ breakpointPass rs
     @ axisPass
     @ legendPass rs"

section \<open>The program state\<close>

text \<open>
  \<open>main\<close> runs \<open>drawToContext\<close> twice in one process, on two canvases and on the same
  array object \<open>regions\<close>, with the module variables of \<open>getColor\<close> alive.  The state
  that the two runs share is explicit here: arrays of regions and canvas contexts are
  objects with a reference, \<open>nextRef\<close> is the next unused reference, and \<open>moduleVars\<close>
  are \<open>assignedColors\<close> and \<open>fallbackColorIndex\<close>.  A context records, in order, the
  calls made on it.
\<close>

type_synonym ref = nat

datatype backend = ImageBackend | PdfBackend

record canvas =
  backend :: backend
  canvasWidth :: rat
  canvasHeight :: rat
  calls :: "op list"

record world =
  arrays :: "ref \<rightharpoonup> region list"
  canvases :: "ref \<rightharpoonup> canvas"
  moduleVars :: registry
  nextRef :: ref

definition initWorld :: world where
  "initWorld =
     \<lparr>arrays = Map.empty, canvases = Map.empty, moduleVars = initRegistry, nextRef = 0\<rparr>"

text \<open>A new array object holding \<open>rs\<close>: an array literal or a spread \<open>[...a]\<close>.\<close>

definition newArray :: "region list \<Rightarrow> world \<Rightarrow> ref \<times> world" where
  "newArray rs w =
     (nextRef w, w\<lparr>arrays := (arrays w)(nextRef w \<mapsto> rs), nextRef := nextRef w + 1\<rparr>)"

text \<open>
  \<open>a.sort((a, b) => a.start - b.start)\<close>: sorts the array object \<open>a\<close> in place and
  returns \<open>a\<close>.
\<close>

definition sortInPlace :: "ref \<Rightarrow> world \<Rightarrow> world" where
  "sortInPlace a w =
     (case arrays w a of
        None \<Rightarrow> w
      | Some rs \<Rightarrow> w\<lparr>arrays := (arrays w)(a \<mapsto> sortedRegions rs)\<rparr>)"

text \<open>
  \<open>createCanvas(width, height)\<close> or \<open>createCanvas(width, height, 'pdf')\<close> followed by
  \<open>getContext('2d')\<close>: a new context on which nothing has been called.
\<close>

definition createCanvas :: "rat \<Rightarrow> rat \<Rightarrow> backend \<Rightarrow> world \<Rightarrow> ref \<times> world" where
  "createCanvas width height b w =
     (nextRef w,
      w\<lparr>canvases := (canvases w)(nextRef w \<mapsto>
            \<lparr>backend = b, canvasWidth = width, canvasHeight = height, calls = []\<rparr>),
        nextRef := nextRef w + 1\<rparr>)"

text \<open>The calls \<open>ops\<close> made on the context \<open>ctx\<close>.\<close>

definition issue :: "ref \<Rightarrow> op list \<Rightarrow> world \<Rightarrow> world" where
  "issue ctx ops w =
     (case canvases w ctx of
        None \<Rightarrow> w
      | Some c \<Rightarrow> w\<lparr>canvases := (canvases w)(ctx \<mapsto> c\<lparr>calls := calls c @ ops\<rparr>)\<rparr>)"

section \<open>The functions on the program state\<close>

text \<open>
  \<open>parseInput\<close> (line 125) builds its result in a new array and changes the module
  variables through \<open>getColor\<close>; it returns the reference of the array.
\<close>

definition parseInputOn :: "jsstring \<Rightarrow> world \<Rightarrow> error + (ref \<times> message list \<times> world)" where
  "parseInputOn inputText w =
     (case parseInput (moduleVars w) inputText of
        Inl e \<Rightarrow> Inl e
      | Inr (rs, out, reg') \<Rightarrow>
          (case newArray rs (w\<lparr>moduleVars := reg'\<rparr>) of
             (a, w') \<Rightarrow> Inr (a, out, w')))"

text \<open>
  \<open>calculateBreakpoints\<close> (lines 186-198) on the array object \<open>a\<close>: line 189 makes a
  copy with the spread, sorts the copy in place and loops over the copy.
\<close>

definition calculateBreakpointsOn :: "ref \<Rightarrow> world \<Rightarrow> breakpoint list \<times> world" where
  "calculateBreakpointsOn a w =
     (case arrays w a of
        None \<Rightarrow> ([], w)
      | Some rs \<Rightarrow>
          if length rs = 0 then ([], w)
          else
            (case newArray rs w of
               (copy, w1) \<Rightarrow>
                 let w2 = sortInPlace copy w1 in
                 (case arrays w2 copy of
                    None \<Rightarrow> ([], w2)
                  | Some sorted0 \<Rightarrow> (bpLoop 0 (length sorted0) sorted0, w2))))"

text \<open>
  \<open>drawToContext\<close> (lines 212-311) on the context \<open>ctx\<close> and the array object \<open>a\<close>.
  The array is read by the \<open>forEach\<close> of line 233, handed to \<open>calculateBreakpoints\<close>
  at line 274 and read again by the \<open>forEach\<close> of line 301.  A missing context or
  array makes the first use throw a TypeError.
\<close>

definition drawToContextOn :: "ref \<Rightarrow> rat \<Rightarrow> rat \<Rightarrow> ref \<Rightarrow> world \<Rightarrow> error + world" where
  "drawToContextOn ctx width height a w =
     (if canvases w ctx = None then Inl TypeError
      else
        (case arrays w a of
           None \<Rightarrow> Inl TypeError
         | Some rs \<Rightarrow>
             let w1 = issue ctx ([SetFillStyle ''white'', FillRect 0 0 width height]
                                 @ concat (map drawGene GENE_MAP)) w;
                 w2 = issue ctx (overlayPass rs) w1;
                 w3 = issue ctx (namePass @ connectorPass) w2
             in (case calculateBreakpointsOn a w3 of
                   (bps, w4) \<Rightarrow>
                     let w5 = issue ctx ([SetStrokeStyle ''#333333'', SetFont 11]
                                         @ concat (map drawBreakpoint bps)) w4;
                         w6 = issue ctx axisPass w5
                     in (case arrays w6 a of
                           None \<Rightarrow> Inl TypeError
                         | Some rs' \<Rightarrow> Inr (issue ctx (legendPass rs') w6)))))"

section \<open>Main program (lines 316-358)\<close>

text \<open>
  The main program after the arguments are validated: \<open>png\<close> and \<open>pdf\<close> are
  \<open>params.png\<close> and \<open>params.pdf\<close> (\<open>None\<close> for \<open>null\<close>), \<open>inputText\<close> is the content of
  the input file.  \<open>renderPass\<close> is the body of each of the two \<open>if\<close> blocks: a new
  canvas of the given backend and \<open>drawToContext\<close> on its context and on \<open>regions\<close>.
  Encoding the canvas and writing the file belong to the libraries and are left out.
  \<open>mainFrom st\<close> is the \<open>try\<close> block run in the state \<open>st\<close>; its result is the final
  state with the references of the two contexts, or the exit with status 1 (no region,
  or an exception caught by the \<open>catch\<close>).  The program runs the block once, in
  \<open>initWorld\<close>; a process that ran it again would start it in a later state.
\<close>

datatype exit = Exit1

definition renderPass :: "backend \<Rightarrow> ref \<Rightarrow> world \<Rightarrow> error + (ref \<times> world)" where
  "renderPass b a w =
     (case createCanvas (c_width RENDER_CONFIG) (c_height RENDER_CONFIG) b w of
        (ctx, w1) \<Rightarrow>
          (case drawToContextOn ctx (c_width RENDER_CONFIG) (c_height RENDER_CONFIG) a w1 of
             Inl e \<Rightarrow> Inl e
           | Inr w2 \<Rightarrow> Inr (ctx, w2)))"

definition mainFrom ::
  "world \<Rightarrow> jsstring option \<Rightarrow> jsstring option \<Rightarrow> jsstring \<Rightarrow>
     exit + (world \<times> ref option \<times> ref option)" where
  "mainFrom st png pdf inputText =
     (case parseInputOn inputText st of
        Inl e \<Rightarrow> Inl Exit1
      | Inr (a, out, w0) \<Rightarrow>
          if (case arrays w0 a of None \<Rightarrow> 0 | Some rs \<Rightarrow> length rs) = 0 then Inl Exit1
          else
            (case (if png \<noteq> None
                   then (case renderPass ImageBackend a w0 of
                           Inl e \<Rightarrow> Inl e
                         | Inr (ctxPng, w1) \<Rightarrow> Inr (Some ctxPng, w1))
                   else Inr (None, w0)) of
               Inl e \<Rightarrow> Inl Exit1
             | Inr (ctxPng, w1) \<Rightarrow>
                 (case (if pdf \<noteq> None
                        then (case renderPass PdfBackend a w1 of
                                Inl e \<Rightarrow> Inl e
                              | Inr (ctxPdf, w2) \<Rightarrow> Inr (Some ctxPdf, w2))
                        else Inr (None, w1)) of
                    Inl e \<Rightarrow> Inl Exit1
                  | Inr (ctxPdf, w2) \<Rightarrow> Inr (w2, ctxPng, ctxPdf))))"

definition main ::
  "jsstring option \<Rightarrow> jsstring option \<Rightarrow> jsstring \<Rightarrow>
     exit + (world \<times> ref option \<times> ref option)" where
  "main png pdf inputText = mainFrom initWorld png pdf inputText"

section \<open>Definitions that follow the specification\<close>

text \<open>
  These definitions are not translations of source functions.  They restate, in the
  words of the specification, what the source is compared with: which lines are data
  lines and what their fields are, which lines follow the header, how a pair is
  normalised, and the order of first occurrence.
\<close>

text \<open>A line whose trimmed text begins with the header marker.\<close>

definition isHeaderLine :: "jsstring \<Rightarrow> bool" where
  "isHeaderLine raw = startsWith (trim raw) (js ''>'')"

text \<open>
  The fields \<open>(rawA, rawB, label)\<close> of a data line: a line that is not blank, not a
  comment and not a header, has at least three fields, whose first two fields parse as
  integers and whose label, the remaining fields joined by single spaces, is not empty.
\<close>

definition spec_dataFields :: "jsstring \<Rightarrow> (int \<times> int \<times> jsstring) option" where
  "spec_dataFields raw =
     (let line = trim raw; parts = splitWs line in
      if line = [] \<or> startsWith line (js ''#'') \<or> startsWith line (js ''>'') \<or> length parts < 3
      then None
      else (case (parseInt (parts ! 0), parseInt (parts ! 1)) of
              (Some rawA, Some rawB) \<Rightarrow>
                if joinSpace (drop 2 parts) = [] then None
                else Some (rawA, rawB, joinSpace (drop 2 parts))
            | _ \<Rightarrow> None))"

text \<open>The lines that follow the first header line.\<close>

definition spec_linesAfterHeader :: "jsstring list \<Rightarrow> jsstring list" where
  "spec_linesAfterHeader ls = drop 1 (dropWhile (\<lambda>l. \<not> isHeaderLine l) ls)"

text \<open>\<open>start = min(rawA, rawB)\<close>, \<open>end = max(rawA, rawB)\<close>.\<close>

definition spec_normalise :: "int \<times> int \<times> jsstring \<Rightarrow> int \<times> int \<times> jsstring" where
  "spec_normalise f = (case f of (rawA, rawB, label) \<Rightarrow> (min rawA rawB, max rawA rawB, label))"

text \<open>The three fields of a region that come from its line.\<close>

definition regionFields :: "region \<Rightarrow> int \<times> int \<times> jsstring" where
  "regionFields r = (start r, end' r, subtype r)"

text \<open>The distinct elements of a list in the order of their first occurrence.\<close>

primrec spec_firstOccurrences :: "'a list \<Rightarrow> 'a list" where
  "spec_firstOccurrences [] = []"
| "spec_firstOccurrences (x # xs) = x # filter (\<lambda>y. y \<noteq> x) (spec_firstOccurrences xs)"

text \<open>
  Observations on a list of drawing operations: whether an operation is \<open>fillRect\<close>, the
  text of a \<open>fillText\<close>, and the fill colour in force at each \<open>fillRect\<close> (\<open>c\<close> is the
  fill colour before the first operation).
\<close>

fun isFillRect :: "op \<Rightarrow> bool" where
  "isFillRect (FillRect x y w h) = True"
| "isFillRect _ = False"

fun fillTextLabel :: "op \<Rightarrow> jsstring option" where
  "fillTextLabel (FillText s x y) = Some s"
| "fillTextLabel _ = None"

fun fillRectColors :: "string \<Rightarrow> op list \<Rightarrow> string list" where
  "fillRectColors c [] = []"
| "fillRectColors c (SetFillStyle c' # ops) = fillRectColors c' ops"
| "fillRectColors c (FillRect x y w h # ops) = c # fillRectColors c ops"
| "fillRectColors c (_ # ops) = fillRectColors c ops"

text \<open>
  Every array and every context of the state has a reference below \<open>nextRef\<close>, so that
  a new object never takes the reference of an existing one.
\<close>

definition allocated :: "world \<Rightarrow> bool" where
  "allocated w = (\<forall>r. (arrays w r \<noteq> None \<or> canvases w r \<noteq> None) \<longrightarrow> r < nextRef w)"

section \<open>Running the program on concrete inputs\<close>

text \<open>The definitions to unfold when the parser is run on a concrete text.\<close>

lemmas eval_defs = parseInput_def trim_def isWhiteSpace_def parseLine_def startsWith_def
  parseInt_def isDigit_def decimalValue_def digitValue_def getColor_def DEFAULT_COLORS_def
  FALLBACK_COLORS_def initRegistry_def Let_def

section \<open>Properties of calculateBreakpoints\<close>

lemma bpLoop_position:
  "rs \<noteq> [] \<Longrightarrow> i + length rs = n \<Longrightarrow>
   map position (bpLoop i n rs) = map start rs @ [end' (last rs)]"
proof (induction rs arbitrary: i)
  case Nil
  then show ?case by simp
next
  case (Cons r rs)
  show ?case
  proof (cases "rs = []")
    case True
    with Cons.prems show ?thesis by auto
  next
    case False
    with Cons.prems have "int i \<noteq> int n - 1" by (cases rs) auto
    moreover from Cons.prems have "Suc i + length rs = n" by simp
    ultimately show ?thesis using Cons.IH [OF False, of "Suc i"] False by simp
  qed
qed

lemma bpLoop_isLast:
  "rs \<noteq> [] \<Longrightarrow> i + length rs = n \<Longrightarrow>
   map isLast (bpLoop i n rs) = replicate (length rs) False @ [True]"
proof (induction rs arbitrary: i)
  case Nil
  then show ?case by simp
next
  case (Cons r rs)
  show ?case
  proof (cases "rs = []")
    case True
    with Cons.prems show ?thesis by auto
  next
    case False
    with Cons.prems have "int i \<noteq> int n - 1" by (cases rs) auto
    moreover from Cons.prems have "Suc i + length rs = n" by simp
    ultimately show ?thesis using Cons.IH [OF False, of "Suc i"] False by simp
  qed
qed

lemma bpLoop_isFirst_pos:
  "0 < i \<Longrightarrow> i + length rs = n \<Longrightarrow>
   map isFirst (bpLoop i n rs) = replicate (length (bpLoop i n rs)) False"
  by (induction rs arbitrary: i) auto

lemma bpLoop_displayValue:
  "map displayValue (bpLoop i n rs) = map position (bpLoop i n rs)"
  by (induction rs arbitrary: i) auto

lemma bpLoop_length:
  "rs \<noteq> [] \<Longrightarrow> i + length rs = n \<Longrightarrow> length (bpLoop i n rs) = length rs + 1"
  using bpLoop_position [of rs i n] by (metis length_map length_append_singleton Suc_eq_plus1)

lemma bpLoop_isFirst:
  "rs \<noteq> [] \<Longrightarrow> length rs = n \<Longrightarrow>
   map isFirst (bpLoop 0 n rs) = True # replicate (length rs) False"
proof (cases rs)
  case Nil
  assume "rs \<noteq> []" with Nil show ?thesis by simp
next
  case (Cons r rs')
  assume n: "length rs = n"
  show ?thesis
  proof (cases "rs' = []")
    case True
    with Cons n show ?thesis by auto
  next
    case False
    from Cons n have s: "Suc 0 + length rs' = n" by simp
    from Cons n have n': "n = Suc (length rs')" by simp
    from False s have "int 0 \<noteq> int n - 1" by (cases rs') auto
    then show ?thesis
      using Cons bpLoop_isFirst_pos [of "Suc 0" rs' n] bpLoop_length [OF False s]
      by (simp add: n')
  qed
qed

lemma sortedRegions_length: "length (sortedRegions rs) = length rs"
  by (simp add: sortedRegions_def)

lemma sortedRegions_Nil: "sortedRegions rs = [] \<longleftrightarrow> rs = []"
  by (metis sortedRegions_length length_0_conv)

lemma sortedRegions_sorted: "sorted (map start (sortedRegions rs))"
  by (simp add: sortedRegions_def)

lemma sortedRegions_set: "set (sortedRegions rs) = set rs"
  by (simp add: sortedRegions_def)

lemma sortedRegions_stable:
  "filter (\<lambda>r. start r = k) (sortedRegions rs) = filter (\<lambda>r. start r = k) rs"
  by (simp add: sortedRegions_def sort_key_stable)

lemma hd_sorted_Min: "xs \<noteq> [] \<Longrightarrow> sorted xs \<Longrightarrow> hd xs = Min (set (xs::int list))"
  by (cases xs) (auto intro!: Min_eqI [symmetric])

lemma last_sorted_Max: "xs \<noteq> [] \<Longrightarrow> sorted xs \<Longrightarrow> last xs = Max (set (xs::int list))"
  by (induction xs) (auto intro!: Max_eqI [symmetric] simp: sorted_wrt_append)


text \<open>
  Claim C1 (as amended).  The empty region list yields no breakpoint.  A non-empty list of
  \<open>n\<close> regions yields exactly \<open>n + 1\<close> breakpoints: the start of every region, in
  ascending stable order of start, followed by the end of the region that is last in that
  order.  Only the first one is flagged \<open>isFirst\<close> (its position is the smallest start),
  only the final one is flagged \<open>isLast\<close> (it is the end of a region with the largest
  start).  The starts of the intermediate regions are emitted as well.
\<close>

theorem calculateBreakpoints_emits_every_start:
  "calculateBreakpoints [] = [] \<and>
   (regions \<noteq> [] \<longrightarrow>
      length (calculateBreakpoints regions) = length regions + 1 \<and>
      map position (calculateBreakpoints regions) =
        map start (sortedRegions regions) @ [end' (last (sortedRegions regions))] \<and>
      map displayValue (calculateBreakpoints regions) = map position (calculateBreakpoints regions) \<and>
      map isFirst (calculateBreakpoints regions) = True # replicate (length regions) False \<and>
      map isLast (calculateBreakpoints regions) = replicate (length regions) False @ [True] \<and>
      sorted (map start (sortedRegions regions)) \<and>
      (\<forall>k. filter (\<lambda>r. start r = k) (sortedRegions regions) = filter (\<lambda>r. start r = k) regions) \<and>
      position (hd (calculateBreakpoints regions)) = Min (start ` set regions) \<and>
      start (last (sortedRegions regions)) = Max (start ` set regions))"
proof -
  have e: "calculateBreakpoints [] = []" by (simp add: calculateBreakpoints_def)
  have "length (calculateBreakpoints regions) = length regions + 1 \<and>
      map position (calculateBreakpoints regions) =
        map start (sortedRegions regions) @ [end' (last (sortedRegions regions))] \<and>
      map displayValue (calculateBreakpoints regions) = map position (calculateBreakpoints regions) \<and>
      map isFirst (calculateBreakpoints regions) = True # replicate (length regions) False \<and>
      map isLast (calculateBreakpoints regions) = replicate (length regions) False @ [True] \<and>
      sorted (map start (sortedRegions regions)) \<and>
      (\<forall>k. filter (\<lambda>r. start r = k) (sortedRegions regions) = filter (\<lambda>r. start r = k) regions) \<and>
      position (hd (calculateBreakpoints regions)) = Min (start ` set regions) \<and>
      start (last (sortedRegions regions)) = Max (start ` set regions)" if ne: "regions \<noteq> []"
  proof -
    let ?s = "sortedRegions regions"
    from ne have sne: "?s \<noteq> []" by (simp add: sortedRegions_Nil)
    have len: "0 + length ?s = length ?s" by simp
    have cb: "calculateBreakpoints regions = bpLoop 0 (length ?s) ?s"
      using ne by (simp add: calculateBreakpoints_def)
    have p: "map position (calculateBreakpoints regions) = map start ?s @ [end' (last ?s)]"
      unfolding cb by (rule bpLoop_position [OF sne len])
    have l: "length (calculateBreakpoints regions) = length regions + 1"
      unfolding cb using bpLoop_length [OF sne len] by (simp add: sortedRegions_length)
    have d: "map displayValue (calculateBreakpoints regions) = map position (calculateBreakpoints regions)"
      unfolding cb by (rule bpLoop_displayValue)
    have f: "map isFirst (calculateBreakpoints regions) = True # replicate (length regions) False"
      unfolding cb using bpLoop_isFirst [OF sne refl] by (simp add: sortedRegions_length)
    have la: "map isLast (calculateBreakpoints regions) = replicate (length regions) False @ [True]"
      unfolding cb using bpLoop_isLast [OF sne len] by (simp add: sortedRegions_length)
    have st: "\<forall>k. filter (\<lambda>r. start r = k) ?s = filter (\<lambda>r. start r = k) regions"
      by (simp add: sortedRegions_stable)
    have mne: "map start ?s \<noteq> []" using sne by simp
    have setm: "set (map start ?s) = start ` set regions"
      by (simp add: sortedRegions_set)
    have "calculateBreakpoints regions \<noteq> []" using l by auto
    then have "position (hd (calculateBreakpoints regions)) = hd (map position (calculateBreakpoints regions))"
      by (simp add: hd_map)
    also have "\<dots> = hd (map start ?s)" using p mne by simp
    also have "\<dots> = Min (start ` set regions)"
      using hd_sorted_Min [OF mne sortedRegions_sorted] setm by simp
    finally have mn: "position (hd (calculateBreakpoints regions)) = Min (start ` set regions)" .
    have "start (last ?s) = last (map start ?s)" using sne by (simp add: last_map)
    also have "\<dots> = Max (start ` set regions)"
      using last_sorted_Max [OF mne sortedRegions_sorted] setm by simp
    finally have mx: "start (last ?s) = Max (start ` set regions)" .
    from l p d f la sortedRegions_sorted [of regions] st mn mx show ?thesis by blast
  qed
  with e show ?thesis by blast
qed

text \<open>
  Claim C2 (as amended).  A list of exactly one region yields exactly two breakpoints: the
  region's start, flagged \<open>isFirst\<close>, and the region's end, flagged \<open>isLast\<close>.  The
  loop index \<open>0\<close> is also \<open>sortedRegions.length - 1\<close>, so the end is pushed.
\<close>

theorem calculateBreakpoints_single:
  "calculateBreakpoints [r] =
     [\<lparr>position = start r, displayValue = start r, isFirst = True, isLast = False\<rparr>,
      \<lparr>position = end' r, displayValue = end' r, isFirst = False, isLast = True\<rparr>]"
  by (simp add: calculateBreakpoints_def sortedRegions_def)

text \<open>
  Claim C1 as stated fails: two regions give three breakpoints, the middle one at the
  start of the second region.
\<close>

theorem calculateBreakpoints_two_regions_counterexample:
  "length (calculateBreakpoints
      [\<lparr>start = 100, end' = 500, subtype = js ''B'', color = ''#3F98F2''\<rparr>,
       \<lparr>start = 500, end' = 1000, subtype = js ''A1'', color = ''#FF5700''\<rparr>]) \<noteq> 2 \<and>
   map position (calculateBreakpoints
      [\<lparr>start = 100, end' = 500, subtype = js ''B'', color = ''#3F98F2''\<rparr>,
       \<lparr>start = 500, end' = 1000, subtype = js ''A1'', color = ''#FF5700''\<rparr>]) = [100, 500, 1000]"
  by (simp add: calculateBreakpoints_def sortedRegions_def)

text \<open>
  Claim C2 as stated fails: one region gives two breakpoints, not one.
\<close>

theorem calculateBreakpoints_one_region_counterexample:
  "length (calculateBreakpoints
      [\<lparr>start = 100, end' = 500, subtype = js ''B'', color = ''#3F98F2''\<rparr>]) \<noteq> 1 \<and>
   map position (calculateBreakpoints
      [\<lparr>start = 100, end' = 500, subtype = js ''B'', color = ''#3F98F2''\<rparr>]) = [100, 500]"
  by (simp add: calculateBreakpoints_def sortedRegions_def)

text \<open>
  Witness for C1 on an unsorted two-region list.
\<close>

theorem calculateBreakpoints_emits_every_start_witness:
  "map position (calculateBreakpoints
      [\<lparr>start = 500, end' = 1000, subtype = js ''A1'', color = ''#FF5700''\<rparr>,
       \<lparr>start = 100, end' = 500, subtype = js ''B'', color = ''#3F98F2''\<rparr>]) = [100, 500, 1000] \<and>
   map isFirst (calculateBreakpoints
      [\<lparr>start = 500, end' = 1000, subtype = js ''A1'', color = ''#FF5700''\<rparr>,
       \<lparr>start = 100, end' = 500, subtype = js ''B'', color = ''#3F98F2''\<rparr>]) = [True, False, False] \<and>
   map isLast (calculateBreakpoints
      [\<lparr>start = 500, end' = 1000, subtype = js ''A1'', color = ''#FF5700''\<rparr>,
       \<lparr>start = 100, end' = 500, subtype = js ''B'', color = ''#3F98F2''\<rparr>]) = [False, False, True]"
  using calculateBreakpoints_emits_every_start
    [of "[\<lparr>start = 500, end' = 1000, subtype = js ''A1'', color = ''#FF5700''\<rparr>,
          \<lparr>start = 100, end' = 500, subtype = js ''B'', color = ''#3F98F2''\<rparr>]"]
  by (simp add: sortedRegions_def)

section \<open>Properties of parseInput\<close>

lemma startsWith_single: "startsWith s [c] \<longleftrightarrow> (\<exists>r. s = c # r)"
  by (cases s) (auto simp: startsWith_def)

lemma parseLine_header:
  "isHeaderLine raw \<Longrightarrow>
   parseLine i raw st = Inr (st\<lparr>headerFound := True, console := console st @ [LogHeaderFound (trim raw)]\<rparr>)"
  by (auto simp: isHeaderLine_def parseLine_def startsWith_single Let_def)

lemma parseLine_before_header:
  "\<not> isHeaderLine raw \<Longrightarrow> \<not> headerFound st \<Longrightarrow> parseLine i raw st = Inr st"
  by (simp add: isHeaderLine_def parseLine_def Let_def)

lemma parseLine_keeps:
  "parseLine i raw st = Inr st' \<Longrightarrow>
   (headerFound st \<longrightarrow> headerFound st') \<and>
   (WarnNoHeader \<notin> set (console st) \<longrightarrow> WarnNoHeader \<notin> set (console st'))"
  by (auto simp: parseLine_def Let_def split: if_splits option.splits sum.splits prod.splits)

lemma parseLoop_no_header:
  "\<not> headerFound st \<Longrightarrow> \<forall>l\<in>set ls. \<not> isHeaderLine l \<Longrightarrow> parseLoop i ls st = Inr st"
  by (induction ls arbitrary: i) (simp_all add: parseLine_before_header)

lemma parseLoop_keeps:
  "parseLoop i ls st = Inr st' \<Longrightarrow>
   (headerFound st \<longrightarrow> headerFound st') \<and>
   (WarnNoHeader \<notin> set (console st) \<longrightarrow> WarnNoHeader \<notin> set (console st'))"
proof (induction ls arbitrary: i st)
  case Nil
  then show ?case by simp
next
  case (Cons l ls)
  from Cons.prems obtain st1 where 1: "parseLine i l st = Inr st1"
    and 2: "parseLoop (i + 1) ls st1 = Inr st'"
    by (auto split: sum.splits)
  from parseLine_keeps [OF 1] Cons.IH [OF 2] show ?case by blast
qed

lemma parseLoop_header_found:
  "\<exists>l\<in>set ls. isHeaderLine l \<Longrightarrow> parseLoop i ls st = Inr st' \<Longrightarrow> headerFound st'"
proof (induction ls arbitrary: i st)
  case Nil
  then show ?case by simp
next
  case (Cons l ls)
  from Cons.prems(2) obtain st1 where 1: "parseLine i l st = Inr st1"
    and 2: "parseLoop (i + 1) ls st1 = Inr st'"
    by (auto split: sum.splits)
  show ?case
  proof (cases "isHeaderLine l")
    case True
    with 1 have "headerFound st1" by (auto simp: parseLine_header)
    with parseLoop_keeps [OF 2] show ?thesis by simp
  next
    case False
    with Cons.prems(1) have "\<exists>l\<in>set ls. isHeaderLine l" by simp
    from Cons.IH [OF this 2] show ?thesis .
  qed
qed

text \<open>
  Claim C3 (as amended).  A blank text (empty, or white space only) returns the empty
  region list and writes nothing: the guard of line 127 returns before the loop.  A text
  that is not blank and in which no line, once trimmed, begins with \<open>>\<close> returns the
  empty region list and writes exactly one message, the no-header warning.  A text with
  a line that, once trimmed, begins with \<open>>\<close> never writes the no-header warning.
\<close>

theorem parseInput_no_header:
  "(trim text = [] \<longrightarrow> parseInput reg0 text = Inr ([], [], reg0)) \<and>
   (trim text \<noteq> [] \<and> (\<forall>l\<in>set (splitChar 0x0A text). \<not> startsWith (trim l) (js ''>'')) \<longrightarrow>
      parseInput reg0 text = Inr ([], [WarnNoHeader], reg0)) \<and>
   ((\<exists>l\<in>set (splitChar 0x0A text). startsWith (trim l) (js ''>'')) \<longrightarrow>
      (\<forall>rs c r. parseInput reg0 text = Inr (rs, c, r) \<longrightarrow> WarnNoHeader \<notin> set c))"
proof (intro conjI impI allI)
  assume "trim text = []"
  then show "parseInput reg0 text = Inr ([], [], reg0)" by (simp add: parseInput_def)
next
  assume a: "trim text \<noteq> [] \<and> (\<forall>l\<in>set (splitChar 0x0A text). \<not> startsWith (trim l) (js ''>''))"
  then have ne: "text \<noteq> []" by (auto simp: trim_def)
  let ?st = "\<lparr>regionsAcc = [], headerFound = False, console = [], colors = reg0\<rparr>"
  from a have "\<forall>l\<in>set (splitChar 0x0A text). \<not> isHeaderLine l" by (simp add: isHeaderLine_def)
  then have "parseLoop 0 (splitChar 0x0A text) ?st = Inr ?st"
    by (intro parseLoop_no_header) simp_all
  with a ne show "parseInput reg0 text = Inr ([], [WarnNoHeader], reg0)"
    by (simp add: parseInput_def)
next
  fix rs c r
  assume h: "\<exists>l\<in>set (splitChar 0x0A text). startsWith (trim l) (js ''>'')"
    and p: "parseInput reg0 text = Inr (rs, c, r)"
  let ?st = "\<lparr>regionsAcc = [], headerFound = False, console = [], colors = reg0\<rparr>"
  show "WarnNoHeader \<notin> set c"
  proof (cases "text = [] \<or> trim text = []")
    case True
    with p show ?thesis by (auto simp: parseInput_def)
  next
    case False
    with p obtain st' where l: "parseLoop 0 (splitChar 0x0A text) ?st = Inr st'"
      and c: "c = console st' @ (if \<not> headerFound st' then [WarnNoHeader] else [])"
      by (auto simp: parseInput_def split: sum.splits)
    from h have "\<exists>l\<in>set (splitChar 0x0A text). isHeaderLine l" by (simp add: isHeaderLine_def)
    from parseLoop_header_found [OF this l] have hf: "headerFound st'" .
    from parseLoop_keeps [OF l] have "WarnNoHeader \<notin> set (console st')" by simp
    with hf c show ?thesis by simp
  qed
qed


text \<open>
  Claim C3 as stated fails on the empty text: its only line is empty, so no line begins
  with \<open>>\<close>, and yet no warning is written.
\<close>

theorem parseInput_blank_text_counterexample:
  "splitChar 0x0A [] = [[]] \<and> \<not> startsWith [] (js ''>'') \<and> \<not> startsWith (trim []) (js ''>'') \<and>
   parseInput initRegistry [] = Inr ([], [], initRegistry)"
  by (simp add: parseInput_def startsWith_def trim_def)

text \<open>
  Witness for C3: a text with a comment and a data line but no header, a blank text, and
  a text that is only a header.
\<close>

theorem parseInput_no_header_witness:
  "parseInput initRegistry (js ''# note'' @ [0x0A] @ js ''100 500 B'') =
     Inr ([], [WarnNoHeader], initRegistry) \<and>
   parseInput initRegistry [0x0A] = Inr ([], [], initRegistry) \<and>
   parseInput initRegistry (js ''>seq1'') = Inr ([], [LogHeaderFound (js ''>seq1'')], initRegistry) \<and>
   WarnNoHeader \<notin> set [LogHeaderFound (js ''>seq1'')]"
proof -
  have 1: "parseInput initRegistry (js ''# note'' @ [0x0A] @ js ''100 500 B'') =
     Inr ([], [WarnNoHeader], initRegistry)"
    using parseInput_no_header [of "js ''# note'' @ [0x0A] @ js ''100 500 B''" initRegistry]
    by (simp add: trim_def isWhiteSpace_def startsWith_def)
  have 2: "parseInput initRegistry [0x0A] = Inr ([], [], initRegistry)"
    using parseInput_no_header [of "[0x0A]" initRegistry]
    by (simp add: trim_def isWhiteSpace_def)
  have 3: "parseInput initRegistry (js ''>seq1'') = Inr ([], [LogHeaderFound (js ''>seq1'')], initRegistry)"
    by (simp add: eval_defs)
  from parseInput_no_header [of "(js ''>seq1'')" initRegistry] 3
  have "WarnNoHeader \<notin> set [LogHeaderFound (js ''>seq1'')]"
    by (simp add: trim_def isWhiteSpace_def startsWith_def)
  with 1 2 3 show ?thesis by blast
qed

lemma parseLine_data:
  "headerFound st \<Longrightarrow> parseLine i raw st = Inr st' \<Longrightarrow>
   map regionFields (regionsAcc st') =
     map regionFields (regionsAcc st) @
       map spec_normalise (case spec_dataFields raw of None \<Rightarrow> [] | Some f \<Rightarrow> [f])"
  by (auto simp: parseLine_def spec_dataFields_def spec_normalise_def regionFields_def Let_def
           split: if_splits option.splits sum.splits prod.splits)

lemma parseLine_header_regions:
  "isHeaderLine raw \<Longrightarrow> spec_dataFields raw = None"
  by (simp add: isHeaderLine_def spec_dataFields_def Let_def)

lemma parseLoop_data:
  "headerFound st \<Longrightarrow> parseLoop i ls st = Inr st' \<Longrightarrow>
   map regionFields (regionsAcc st') =
     map regionFields (regionsAcc st) @ map spec_normalise (List.map_filter spec_dataFields ls)"
proof (induction ls arbitrary: i st)
  case Nil
  then show ?case by (simp add: map_filter_simps)
next
  case (Cons l ls)
  from Cons.prems(2) obtain st1 where 1: "parseLine i l st = Inr st1"
    and 2: "parseLoop (i + 1) ls st1 = Inr st'"
    by (auto split: sum.splits)
  from parseLine_keeps [OF 1] Cons.prems(1) have h1: "headerFound st1" by simp
  from parseLine_data [OF Cons.prems(1) 1] Cons.IH [OF h1 2]
  show ?case by (cases "spec_dataFields l") (simp_all add: map_filter_simps)
qed

lemma parseLoop_regions:
  "\<not> headerFound st \<Longrightarrow> parseLoop i ls st = Inr st' \<Longrightarrow>
   map regionFields (regionsAcc st') =
     map regionFields (regionsAcc st) @
       map spec_normalise (List.map_filter spec_dataFields (spec_linesAfterHeader ls))"
proof (induction ls arbitrary: i st)
  case Nil
  then show ?case by (simp add: map_filter_simps spec_linesAfterHeader_def)
next
  case (Cons l ls)
  from Cons.prems(2) obtain st1 where 1: "parseLine i l st = Inr st1"
    and 2: "parseLoop (i + 1) ls st1 = Inr st'"
    by (auto split: sum.splits)
  show ?case
  proof (cases "isHeaderLine l")
    case True
    with 1 have st1: "st1 = st\<lparr>headerFound := True, console := console st @ [LogHeaderFound (trim l)]\<rparr>"
      by (simp add: parseLine_header)
    then have "headerFound st1" by simp
    from parseLoop_data [OF this 2] st1 True show ?thesis
      by (simp add: spec_linesAfterHeader_def)
  next
    case False
    with 1 Cons.prems(1) have "st1 = st" by (simp add: parseLine_before_header)
    with Cons.IH [OF Cons.prems(1), of "i + 1" ] 2 False show ?thesis
      by (simp add: spec_linesAfterHeader_def)
  qed
qed

lemma trim_Nil_iff: "trim s = [] \<longleftrightarrow> (\<forall>c\<in>set s. isWhiteSpace c)"
proof
  assume "trim s = []"
  then have "\<forall>c\<in>set (dropWhile isWhiteSpace s). isWhiteSpace c"
    by (simp add: trim_def dropWhile_eq_Nil_conv)
  then have "dropWhile isWhiteSpace s = []"
    using hd_dropWhile [of isWhiteSpace s] by (cases "dropWhile isWhiteSpace s") auto
  then show "\<forall>c\<in>set s. isWhiteSpace c" by (simp add: dropWhile_eq_Nil_conv)
next
  assume "\<forall>c\<in>set s. isWhiteSpace c"
  then show "trim s = []" by (auto simp: trim_def dest: set_dropWhileD)
qed

lemma splitChar_chars: "\<Union> (set ` set (splitChar c s)) \<subseteq> set s"
  by (induction s) (auto split: if_splits list.splits, blast+)

lemma splitChar_subset: "l \<in> set (splitChar c s) \<Longrightarrow> set l \<subseteq> set s"
  using splitChar_chars [of c s] by blast

lemma blank_text_no_header:
  assumes "trim text = []"
  shows "spec_linesAfterHeader (splitChar c text) = []"
proof -
  have "\<not> isHeaderLine l" if "l \<in> set (splitChar c text)" for l
  proof -
    from splitChar_subset [OF that] assms have "trim l = []"
      by (auto simp: trim_Nil_iff)
    then show ?thesis by (simp add: isHeaderLine_def startsWith_def)
  qed
  then have "dropWhile (\<lambda>l. \<not> isHeaderLine l) (splitChar c text) = []"
    by (simp add: dropWhile_eq_Nil_conv)
  then show ?thesis by (simp only: spec_linesAfterHeader_def drop_Nil)
qed

lemma spec_normalise_ordered: "fst (spec_normalise f) \<le> fst (snd (spec_normalise f))"
  by (cases f) (simp add: spec_normalise_def)

text \<open>
  Claim C5.  Whenever \<open>parseInput\<close> returns, the regions are, in file order, the data
  lines that follow the header, each with \<open>start = min(rawA, rawB)\<close> and
  \<open>end = max(rawA, rawB)\<close> and its label; so \<open>start \<le> end\<close> for every region.
\<close>

theorem parseInput_normalises:
  "parseInput reg0 text = Inr (rs, c, r) \<Longrightarrow>
   map regionFields rs =
     map spec_normalise
       (List.map_filter spec_dataFields (spec_linesAfterHeader (splitChar 0x0A text))) \<and>
   (\<forall>x\<in>set rs. start x \<le> end' x)"
proof -
  assume p: "parseInput reg0 text = Inr (rs, c, r)"
  let ?st = "\<lparr>regionsAcc = [], headerFound = False, console = [], colors = reg0\<rparr>"
  let ?ls = "splitChar 0x0A text"
  have m: "map regionFields rs = map spec_normalise (List.map_filter spec_dataFields (spec_linesAfterHeader ?ls))"
  proof (cases "text = [] \<or> trim text = []")
    case True
    then have t: "trim text = []" by (auto simp: trim_def)
    with p have rs: "rs = []" by (simp add: parseInput_def)
    from rs blank_text_no_header [OF t] show ?thesis by (simp add: map_filter_simps)
  next
    case False
    with p obtain st' where l: "parseLoop 0 ?ls ?st = Inr st'" and rs: "rs = regionsAcc st'"
      by (auto simp: parseInput_def split: sum.splits)
    from parseLoop_regions [OF _ l] rs show ?thesis by simp
  qed
  have "\<forall>x\<in>set rs. start x \<le> end' x"
  proof
    fix x assume "x \<in> set rs"
    then have "regionFields x \<in> set (map regionFields rs)" by simp
    with m obtain f where "regionFields x = spec_normalise f" by auto
    with spec_normalise_ordered [of f] show "start x \<le> end' x"
      by (cases "spec_normalise f") (auto simp: regionFields_def)
  qed
  with m show ?thesis by simp
qed


text \<open>
  Witness for C5: the data line \<open>20 10 B\<close> yields the region with start 10 and end 20,
  and the two regions are in file order.
\<close>

theorem parseInput_normalises_witness:
  "parseInput initRegistry (js ''>seq1'' @ [0x0A] @ js ''20 10 B'' @ [0x0A] @ js ''500 1000 A1'') =
     Inr ([\<lparr>start = 10, end' = 20, subtype = js ''B'', color = ''#3F98F2''\<rparr>,
           \<lparr>start = 500, end' = 1000, subtype = js ''A1'', color = ''#FF5700''\<rparr>],
          [LogHeaderFound (js ''>seq1'')], initRegistry) \<and>
   List.map_filter spec_dataFields (spec_linesAfterHeader
      (splitChar 0x0A (js ''>seq1'' @ [0x0A] @ js ''20 10 B'' @ [0x0A] @ js ''500 1000 A1''))) =
     [(20, 10, js ''B''), (500, 1000, js ''A1'')]"
proof -
  have p: "parseInput initRegistry (js ''>seq1'' @ [0x0A] @ js ''20 10 B'' @ [0x0A] @ js ''500 1000 A1'') =
     Inr ([\<lparr>start = 10, end' = 20, subtype = js ''B'', color = ''#3F98F2''\<rparr>,
           \<lparr>start = 500, end' = 1000, subtype = js ''A1'', color = ''#FF5700''\<rparr>],
          [LogHeaderFound (js ''>seq1'')], initRegistry)"
    by (simp add: eval_defs)
  have f: "List.map_filter spec_dataFields (spec_linesAfterHeader
      (splitChar 0x0A (js ''>seq1'' @ [0x0A] @ js ''20 10 B'' @ [0x0A] @ js ''500 1000 A1''))) =
     [(20, 10, js ''B''), (500, 1000, js ''A1'')]"
    by (simp add: spec_linesAfterHeader_def isHeaderLine_def spec_dataFields_def map_filter_simps
        trim_def isWhiteSpace_def startsWith_def parseInt_def isDigit_def decimalValue_def
        digitValue_def)
  from parseInput_normalises [OF p] p f show ?thesis by blast
qed

section \<open>Properties of parseInt\<close>

lemma digit_not_space: "isDigit c \<Longrightarrow> \<not> isWhiteSpace c \<and> c \<noteq> of_char CHR ''-'' \<and> c \<noteq> of_char CHR ''+''"
  by (auto simp: isDigit_def isWhiteSpace_def)

lemma parseInt_digits:
  assumes ne: "ds \<noteq> []" and dig: "\<forall>c\<in>set ds. isDigit c"
    and rest: "rest = [] \<or> \<not> isDigit (hd rest)"
  shows "parseInt (ds @ rest) = Some (int (decimalValue ds))"
proof -
  from ne obtain d ds' where ds: "ds = d # ds'" by (cases ds) auto
  with dig have d: "isDigit d" by simp
  from digit_not_space [OF d] have nd: "\<not> isWhiteSpace d" "d \<noteq> 45" "d \<noteq> 43" by simp_all
  from nd ds have t: "dropWhile isWhiteSpace (ds @ rest) = d # ds' @ rest" by simp
  from rest have "takeWhile isDigit rest = []" by (cases rest) auto
  with dig have "takeWhile isDigit (ds @ rest) = ds" by (simp add: takeWhile_append2)
  with ds have tw: "takeWhile isDigit (d # ds' @ rest) = d # ds'" by simp
  show ?thesis
    unfolding parseInt_def t Let_def list.case
    using nd tw ds by (simp del: takeWhile.simps)
qed

text \<open>
  Claim C10.  A field that begins with decimal digits parses to the value of those
  digits, whatever follows them.  After the header, a line of at least three fields is
  skipped for its numbers exactly when one of the two \<open>parseInt\<close> results is NaN; when
  both are numbers and the label is not empty, the region is pushed (unless \<open>getColor\<close>
  throws).
\<close>

theorem parseInt_prefix_lenient:
  "(ds \<noteq> [] \<and> (\<forall>c\<in>set ds. isDigit c) \<and> (rest = [] \<or> \<not> isDigit (hd rest)) \<longrightarrow>
      parseInt (ds @ rest) = Some (int (decimalValue ds))) \<and>
   (headerFound st \<and> trim raw \<noteq> [] \<and> \<not> startsWith (trim raw) (js ''#'') \<and>
    \<not> startsWith (trim raw) (js ''>'') \<and> 3 \<le> length (splitWs (trim raw)) \<longrightarrow>
      (parseInt (splitWs (trim raw) ! 0) = None \<or> parseInt (splitWs (trim raw) ! 1) = None \<longrightarrow>
         parseLine i raw st = Inr st) \<and>
      (\<forall>a b. parseInt (splitWs (trim raw) ! 0) = Some a \<and>
             parseInt (splitWs (trim raw) ! 1) = Some b \<and>
             joinSpace (drop 2 (splitWs (trim raw))) \<noteq> [] \<longrightarrow>
         parseLine i raw st =
           (case getColor (colors st) (joinSpace (drop 2 (splitWs (trim raw)))) of
              Inl e \<Rightarrow> Inl e
            | Inr (c, reg') \<Rightarrow>
                Inr (st\<lparr>regionsAcc := regionsAcc st @
                          [\<lparr>start = min a b, end' = max a b,
                            subtype = joinSpace (drop 2 (splitWs (trim raw))), color = c\<rparr>],
                        colors := reg'\<rparr>))))"
proof -
  have 1: "ds \<noteq> [] \<and> (\<forall>c\<in>set ds. isDigit c) \<and> (rest = [] \<or> \<not> isDigit (hd rest)) \<longrightarrow>
      parseInt (ds @ rest) = Some (int (decimalValue ds))"
    using parseInt_digits [of ds rest] by blast
  have 2: "parseLine i raw st = Inr st"
    if "headerFound st" "trim raw \<noteq> []" "\<not> startsWith (trim raw) (js ''#'')"
      "\<not> startsWith (trim raw) (js ''>'')" "3 \<le> length (splitWs (trim raw))"
      "parseInt (splitWs (trim raw) ! 0) = None \<or> parseInt (splitWs (trim raw) ! 1) = None"
    using that by (auto simp: parseLine_def Let_def split: option.splits)
  have 3: "parseLine i raw st =
           (case getColor (colors st) (joinSpace (drop 2 (splitWs (trim raw)))) of
              Inl e \<Rightarrow> Inl e
            | Inr (c, reg') \<Rightarrow>
                Inr (st\<lparr>regionsAcc := regionsAcc st @
                          [\<lparr>start = min a b, end' = max a b,
                            subtype = joinSpace (drop 2 (splitWs (trim raw))), color = c\<rparr>],
                        colors := reg'\<rparr>))"
    if "headerFound st" "trim raw \<noteq> []" "\<not> startsWith (trim raw) (js ''#'')"
      "\<not> startsWith (trim raw) (js ''>'')" "3 \<le> length (splitWs (trim raw))"
      "parseInt (splitWs (trim raw) ! 0) = Some a" "parseInt (splitWs (trim raw) ! 1) = Some b"
      "joinSpace (drop 2 (splitWs (trim raw))) \<noteq> []" for a b
    using that by (auto simp: parseLine_def Let_def min_def max_def split: sum.splits)
  from 1 2 3 show ?thesis by blast
qed

text \<open>
  Witness for C10: \<open>12.5\<close> is read as 12 and \<open>10abc\<close> as 10, and the line
  \<open>12.5 10abc B\<close> is accepted as the region from 10 to 12.
\<close>

theorem parseInt_prefix_lenient_witness:
  "parseInt (js ''12.5'') = Some 12 \<and> parseInt (js ''10abc'') = Some 10 \<and>
   parseLine 1 (js ''12.5 10abc B'')
      \<lparr>regionsAcc = [], headerFound = True, console = [], colors = initRegistry\<rparr> =
     Inr \<lparr>regionsAcc = [\<lparr>start = 10, end' = 12, subtype = js ''B'', color = ''#3F98F2''\<rparr>],
          headerFound = True, console = [], colors = initRegistry\<rparr>"
proof -
  have a: "parseInt (js ''12.5'') = Some 12"
    using parseInt_prefix_lenient [of "js ''12''" "js ''.5''"]
    by (simp add: isDigit_def decimalValue_def digitValue_def)
  have b: "parseInt (js ''10abc'') = Some 10"
    using parseInt_prefix_lenient [of "js ''10''" "js ''abc''"]
    by (simp add: isDigit_def decimalValue_def digitValue_def)
  have t: "trim (js ''12.5 10abc B'') = js ''12.5 10abc B''"
    by (simp add: trim_def isWhiteSpace_def)
  have s: "splitWs (js ''12.5 10abc B'') = [js ''12.5'', js ''10abc'', js ''B'']"
    by (simp add: isWhiteSpace_def)
  have c: "parseLine 1 (js ''12.5 10abc B'')
      \<lparr>regionsAcc = [], headerFound = True, console = [], colors = initRegistry\<rparr> =
     Inr \<lparr>regionsAcc = [\<lparr>start = 10, end' = 12, subtype = js ''B'', color = ''#3F98F2''\<rparr>],
          headerFound = True, console = [], colors = initRegistry\<rparr>"
    using parseInt_prefix_lenient [of "[]" "[]"
        "\<lparr>regionsAcc = [], headerFound = True, console = [], colors = initRegistry\<rparr>"
        "(js ''12.5 10abc B'')" 1, unfolded t s]
    by (simp add: a [simplified] b [simplified] startsWith_def getColor_def DEFAULT_COLORS_def)
  from a b c show ?thesis by blast
qed

section \<open>Properties of getColor\<close>

lemma getColor_default_B: "getColor reg (js ''B'') = Inr (''#3F98F2'', reg)"
  by (simp add: getColor_def DEFAULT_COLORS_def)

lemma getColor_default:
  "map_of DEFAULT_COLORS s = Some c \<Longrightarrow> getColor reg s = Inr (c, reg)"
  by (simp add: getColor_def)

lemma getColor_novel:
  "map_of DEFAULT_COLORS s = None \<Longrightarrow> assignedColors reg (js ''hasOwnProperty'') = None \<Longrightarrow>
   assignedColors reg s = None \<Longrightarrow>
   \<exists>reg'. getColor reg s =
     Inr (FALLBACK_COLORS ! (fallbackColorIndex reg mod 10), reg') \<and>
     fallbackColorIndex reg' = fallbackColorIndex reg + 1"
  by (simp add: getColor_def Let_def FALLBACK_COLORS_def)

lemma getColor_repeat:
  "getColor reg s = Inr (c, reg') \<Longrightarrow> s \<noteq> (js ''__proto__'') \<Longrightarrow> s \<noteq> (js ''hasOwnProperty'') \<Longrightarrow>
   getColor reg' s = Inr (c, reg')"
  by (auto simp: getColor_def Let_def split: option.splits if_splits)

text \<open>
  Claim C6 at its failing input.  The label \<open>__proto__\<close> is never recorded in
  \<open>assignedColors\<close>, so two calls for it return two different fallback colours and the
  counter advances twice; a file with two such data lines gives two regions of the same
  label and different colours.  Once the label \<open>hasOwnProperty\<close> has been assigned, the
  next label without a default colour makes \<open>getColor\<close> throw.
\<close>

theorem getColor_proto_label_not_stable:
  "getColor initRegistry (js ''__proto__'') =
     Inr (''#FF6347'', \<lparr>assignedColors = Map.empty, fallbackColorIndex = 1\<rparr>) \<and>
   getColor \<lparr>assignedColors = Map.empty, fallbackColorIndex = 1\<rparr> (js ''__proto__'') =
     Inr (''#20B2AA'', \<lparr>assignedColors = Map.empty, fallbackColorIndex = 2\<rparr>) \<and>
   parseInput initRegistry
      (js ''>seq1'' @ [0x0A] @ js ''1 2 __proto__'' @ [0x0A] @ js ''3 4 __proto__'') =
     Inr ([\<lparr>start = 1, end' = 2, subtype = js ''__proto__'', color = ''#FF6347''\<rparr>,
           \<lparr>start = 3, end' = 4, subtype = js ''__proto__'', color = ''#20B2AA''\<rparr>],
          [LogHeaderFound (js ''>seq1'')],
          \<lparr>assignedColors = Map.empty, fallbackColorIndex = 2\<rparr>) \<and>
   parseInput initRegistry
      (js ''>seq1'' @ [0x0A] @ js ''1 2 hasOwnProperty'' @ [0x0A] @ js ''3 4 X1'') = Inl TypeError"
  by (simp add: eval_defs)

section \<open>Properties of createXScale\<close>

text \<open>
  Claim C7.  The scale is the linear map with domain \<open>[0, 9719]\<close> and range
  \<open>[margin.left, width - margin.right] = [50, 850]\<close>: it sends 0 to 50 and 9719 to 850,
  has the constant slope \<open>800 / 9719\<close>, and does not clamp: a position below 0 lands
  left of 50 and a position above 9719 lands right of 850.
\<close>

theorem createXScale_linear:
  "createXScale p = 50 + (p - 0) / (9719 - 0) * (850 - 50) \<and>
   m_left (c_margin RENDER_CONFIG) = 50 \<and>
   c_width RENDER_CONFIG - m_right (c_margin RENDER_CONFIG) = 850 \<and>
   axisRange RENDER_CONFIG = (0, 9719) \<and>
   createXScale 0 = 50 \<and> createXScale 9719 = 850 \<and>
   createXScale (p + d) - createXScale p = d * (800 / 9719) \<and>
   (p < 0 \<longrightarrow> createXScale p < 50) \<and>
   (9719 < p \<longrightarrow> 850 < createXScale p)"
  by (simp add: createXScale_def RENDER_CONFIG_def field_simps)

text \<open>Witness for C7: the positions -100 and 10000 land outside \<open>[50, 850]\<close>.\<close>

theorem createXScale_linear_witness:
  "(- 100 :: rat) < 0 \<and> createXScale (- 100) < 50 \<and> (9719 :: rat) < 10000 \<and> 850 < createXScale 10000"
  using createXScale_linear [of "- 100" 0] createXScale_linear [of 10000 0] by simp

section \<open>Properties of the overlay pass\<close>

lemma overlayGene_cases:
  "overlayGene r g =
     (if max (start r) (start g) < min (end' r) (end' g)
      then [SetGlobalAlpha (8 / 10), SetFillStyle (color r),
            FillRect (createXScale (of_int (max (start r) (start g)))) (getRowY (row g))
                     (createXScale (of_int (min (end' r) (end' g)))
                        - createXScale (of_int (max (start r) (start g))))
                     (geneRowHeight RENDER_CONFIG),
            SetGlobalAlpha 1]
      else [])"
  by (simp add: overlayGene_def Let_def)

lemma overlayGene_count:
  "length (filter isFillRect (overlayGene r g)) =
     (if max (start r) (start g) < min (end' r) (end' g) then 1 else 0)"
  by (simp add: overlayGene_def Let_def)

lemma overlayRegion_count:
  "length (filter isFillRect (concat (map (overlayGene r) gs))) =
     length (filter (\<lambda>g. max (start r) (start g) < min (end' r) (end' g)) gs)"
  by (induction gs) (simp_all add: overlayGene_count del: max_less_iff_conj min_less_iff_conj)

lemma overlayPass_count:
  "length (filter isFillRect (overlayPass rs)) =
     (\<Sum>r\<leftarrow>rs. length (filter (\<lambda>g. max (start r) (start g) < min (end' r) (end' g)) GENE_MAP))"
  unfolding overlayPass_def
  by (induction rs) (simp_all add: overlayRegion_count del: max_less_iff_conj min_less_iff_conj)

text \<open>
  Claim C4.  For a region and a gene the overlay pass draws something exactly when
  \<open>max(region.start, gene.start) < min(region.end, gene.end)\<close>, and then it draws one
  rectangle over the overlap, at the gene's row, with alpha 0.8 and the region's colour.
  The pass runs over every region and every gene of the table, so a region gets one
  rectangle for each gene it overlaps.
\<close>

theorem overlay_iff_strict_overlap:
  "(overlayGene r g \<noteq> [] \<longleftrightarrow> max (start r) (start g) < min (end' r) (end' g)) \<and>
   overlayGene r g =
     (if max (start r) (start g) < min (end' r) (end' g)
      then [SetGlobalAlpha (8 / 10), SetFillStyle (color r),
            FillRect (createXScale (of_int (max (start r) (start g)))) (getRowY (row g))
                     (createXScale (of_int (min (end' r) (end' g)))
                        - createXScale (of_int (max (start r) (start g))))
                     (geneRowHeight RENDER_CONFIG),
            SetGlobalAlpha 1]
      else []) \<and>
   overlayPass rs = concat (map (\<lambda>r. concat (map (overlayGene r) GENE_MAP)) rs) \<and>
   length (filter isFillRect (concat (map (overlayGene r) GENE_MAP))) =
     length (filter (\<lambda>g. max (start r) (start g) < min (end' r) (end' g)) GENE_MAP) \<and>
   length (filter isFillRect (overlayPass rs)) =
     (\<Sum>r\<leftarrow>rs. length (filter (\<lambda>g. max (start r) (start g) < min (end' r) (end' g)) GENE_MAP))"
proof -
  have a: "overlayGene r g \<noteq> [] \<longleftrightarrow> max (start r) (start g) < min (end' r) (end' g)"
    by (simp add: overlayGene_def Let_def)
  have b: "overlayPass rs = concat (map (\<lambda>r. concat (map (overlayGene r) GENE_MAP)) rs)"
    by (simp add: overlayPass_def)
  from a overlayGene_cases [of r g] b overlayRegion_count [of r GENE_MAP] overlayPass_count [of rs]
  show ?thesis by (intro conjI)
qed

text \<open>
  Witness for C4: the region \<open>[100, 200]\<close> and a feature \<open>[200, 300]\<close> touch and give no
  rectangle; the region \<open>[100, 201]\<close> gives one; the region \<open>[2000, 2200]\<close> overlaps
  \<open>gag\<close> and \<open>pol\<close> and gives two.
\<close>

theorem overlay_iff_strict_overlap_witness:
  "overlayGene \<lparr>start = 100, end' = 200, subtype = js ''B'', color = ''#3F98F2''\<rparr>
      \<lparr>start = 200, end' = 300, name = js ''x'', row = 1, bgColor = ''#CCCCCC'', noOverlay = False\<rparr> = [] \<and>
   overlayGene \<lparr>start = 100, end' = 201, subtype = js ''B'', color = ''#3F98F2''\<rparr>
      \<lparr>start = 200, end' = 300, name = js ''x'', row = 1, bgColor = ''#CCCCCC'', noOverlay = False\<rparr> \<noteq> [] \<and>
   length (filter isFillRect
      (overlayPass [\<lparr>start = 2000, end' = 2200, subtype = js ''B'', color = ''#3F98F2''\<rparr>])) = 2"
proof -
  have 1: "overlayGene \<lparr>start = 100, end' = 200, subtype = js ''B'', color = ''#3F98F2''\<rparr>
      \<lparr>start = 200, end' = 300, name = js ''x'', row = 1, bgColor = ''#CCCCCC'', noOverlay = False\<rparr> = []"
    using overlay_iff_strict_overlap
      [of "\<lparr>start = 100, end' = 200, subtype = js ''B'', color = ''#3F98F2''\<rparr>"
          "\<lparr>start = 200, end' = 300, name = js ''x'', row = 1, bgColor = ''#CCCCCC'', noOverlay = False\<rparr>" "[]"]
    by simp
  have 2: "overlayGene \<lparr>start = 100, end' = 201, subtype = js ''B'', color = ''#3F98F2''\<rparr>
      \<lparr>start = 200, end' = 300, name = js ''x'', row = 1, bgColor = ''#CCCCCC'', noOverlay = False\<rparr> \<noteq> []"
    using overlay_iff_strict_overlap
      [of "\<lparr>start = 100, end' = 201, subtype = js ''B'', color = ''#3F98F2''\<rparr>"
          "\<lparr>start = 200, end' = 300, name = js ''x'', row = 1, bgColor = ''#CCCCCC'', noOverlay = False\<rparr>" "[]"]
    by simp
  have 3: "length (filter isFillRect
      (overlayPass [\<lparr>start = 2000, end' = 2200, subtype = js ''B'', color = ''#3F98F2''\<rparr>])) = 2"
    using overlay_iff_strict_overlap
      [of "\<lparr>start = 2000, end' = 2200, subtype = js ''B'', color = ''#3F98F2''\<rparr>"
          "\<lparr>start = 200, end' = 300, name = js ''x'', row = 1, bgColor = ''#CCCCCC'', noOverlay = False\<rparr>"
          "[\<lparr>start = 2000, end' = 2200, subtype = js ''B'', color = ''#3F98F2''\<rparr>]"]
    by (simp add: GENE_MAP_def)
  from 1 2 3 show ?thesis by blast
qed

section \<open>Properties of the legend\<close>

lemma spec_firstOccurrences_set: "set (spec_firstOccurrences xs) = set xs"
  by (induction xs) auto

lemma spec_firstOccurrences_distinct: "distinct (spec_firstOccurrences xs)"
  by (induction xs) (auto simp: spec_firstOccurrences_set)

lemma subtypeMap_keys:
  "map fst (foldl subtypeMapAdd m rs) =
     map fst m @ filter (\<lambda>s. s \<notin> set (map fst m)) (spec_firstOccurrences (map subtype rs))"
proof (induction rs arbitrary: m)
  case Nil
  then show ?case by simp
next
  case (Cons r rs)
  show ?case
  proof (cases "subtype r \<in> set (map fst m)")
    case True
    then have "subtypeMapAdd m r = m" by (simp add: subtypeMapAdd_def)
    moreover from True have
      "filter (\<lambda>s. s \<notin> set (map fst m)) (filter (\<lambda>y. y \<noteq> subtype r) xs) =
       filter (\<lambda>s. s \<notin> set (map fst m)) xs" for xs
      by (induction xs) auto
    ultimately show ?thesis using Cons.IH [of m] True by simp
  next
    case False
    then have m': "subtypeMapAdd m r = m @ [(subtype r, color r)]" by (simp add: subtypeMapAdd_def)
    have "filter (\<lambda>s. s \<notin> set (map fst (m @ [(subtype r, color r)]))) xs =
          filter (\<lambda>s. s \<notin> set (map fst m)) (filter (\<lambda>y. y \<noteq> subtype r) xs)" for xs
      by (induction xs) auto
    then show ?thesis using Cons.IH [of "m @ [(subtype r, color r)]"] False m' by simp
  qed
qed

lemma subtypeMap_lookup:
  "map_of (foldl subtypeMapAdd m rs) s =
     (case map_of m s of
        Some c \<Rightarrow> Some c
      | None \<Rightarrow> map_option color (find (\<lambda>r. subtype r = s) rs))"
proof (induction rs arbitrary: m)
  case Nil
  then show ?case by (simp split: option.splits)
next
  case (Cons r rs)
  show ?case
  proof (cases "subtype r \<in> set (map fst m)")
    case True
    then have m': "subtypeMapAdd m r = m" by (simp add: subtypeMapAdd_def)
    from True have "subtype r = s \<Longrightarrow> map_of m s \<noteq> None"
      by (simp add: map_of_eq_None_iff)
    then show ?thesis using Cons.IH [of m] m' by (auto split: option.splits)
  next
    case False
    then have m': "subtypeMapAdd m r = m @ [(subtype r, color r)]" by (simp add: subtypeMapAdd_def)
    from False have n: "map_of m (subtype r) = None" by (simp add: map_of_eq_None_iff)
    show ?thesis using Cons.IH [of "m @ [(subtype r, color r)]"] m' n
      by (auto simp: map_add_def split: option.splits)
  qed
qed

lemma legendItems_labels:
  "List.map_filter fillTextLabel (concat (map drawLegendItem (enumerate n items))) = map fst items"
  by (induction items arbitrary: n) (simp_all add: map_filter_simps drawLegendItem_def Let_def)

lemma legendItems_colors:
  "fillRectColors c0 (concat (map drawLegendItem (enumerate n items))) = map snd items"
proof (induction items arbitrary: n c0)
  case Nil
  then show ?case by simp
next
  case (Cons e items)
  from Cons.IH [of "''#333333''" "Suc n"] show ?case
    by (simp add: drawLegendItem_def Let_def)
qed

text \<open>
  Claim C8.  The legend has one entry for each distinct subtype label of the region
  list, in the order of first occurrence; the colour of an entry is the colour of the
  first region with that label.  The legend pass writes the labels in that order and
  fills one swatch per entry with the entry's colour.
\<close>

theorem legend_first_occurrence:
  "map fst (legendData rs) = spec_firstOccurrences (map subtype rs) \<and>
   distinct (map fst (legendData rs)) \<and>
   set (map fst (legendData rs)) = subtype ` set rs \<and>
   (\<forall>s c. (s, c) \<in> set (legendData rs) \<longrightarrow>
      (\<exists>r. find (\<lambda>r. subtype r = s) rs = Some r \<and> c = color r)) \<and>
   List.map_filter fillTextLabel (legendPass rs) = map fst (legendData rs) \<and>
   fillRectColors c0 (legendPass rs) = map snd (legendData rs)"
proof -
  have k: "map fst (legendData rs) = spec_firstOccurrences (map subtype rs)"
    using subtypeMap_keys [of "[]" rs] by (simp add: legendData_def)
  have d: "distinct (map fst (legendData rs))"
    by (simp add: k spec_firstOccurrences_distinct)
  have s: "set (map fst (legendData rs)) = subtype ` set rs"
    by (simp add: k spec_firstOccurrences_set)
  have c: "\<exists>r. find (\<lambda>r. subtype r = s) rs = Some r \<and> c = color r"
    if "(s, c) \<in> set (legendData rs)" for s c
  proof -
    from d that have "map_of (legendData rs) s = Some c" by simp
    then show ?thesis
      using subtypeMap_lookup [of "[]" rs s] by (auto simp: legendData_def)
  qed
  have l: "List.map_filter fillTextLabel (legendPass rs) = map fst (legendData rs)"
    by (simp add: legendPass_def legendItems_labels)
  have f: "fillRectColors c0 (legendPass rs) = map snd (legendData rs)"
    by (simp add: legendPass_def legendItems_colors)
  from k d s c l f show ?thesis by blast
qed

text \<open>
  Witness for C8: regions labelled \<open>B\<close>, \<open>A1\<close>, \<open>B\<close> give the two swatches \<open>B\<close> and
  \<open>A1\<close>, in that order.
\<close>

theorem legend_first_occurrence_witness:
  "legendData [\<lparr>start = 100, end' = 500, subtype = js ''B'', color = ''#3F98F2''\<rparr>,
               \<lparr>start = 500, end' = 1000, subtype = js ''A1'', color = ''#FF5700''\<rparr>,
               \<lparr>start = 1000, end' = 1500, subtype = js ''B'', color = ''#3F98F2''\<rparr>] =
     [(js ''B'', ''#3F98F2''), (js ''A1'', ''#FF5700'')] \<and>
   List.map_filter fillTextLabel (legendPass
              [\<lparr>start = 100, end' = 500, subtype = js ''B'', color = ''#3F98F2''\<rparr>,
               \<lparr>start = 500, end' = 1000, subtype = js ''A1'', color = ''#FF5700''\<rparr>,
               \<lparr>start = 1000, end' = 1500, subtype = js ''B'', color = ''#3F98F2''\<rparr>]) = [js ''B'', js ''A1''] \<and>
   fillRectColors ''white'' (legendPass
              [\<lparr>start = 100, end' = 500, subtype = js ''B'', color = ''#3F98F2''\<rparr>,
               \<lparr>start = 500, end' = 1000, subtype = js ''A1'', color = ''#FF5700''\<rparr>,
               \<lparr>start = 1000, end' = 1500, subtype = js ''B'', color = ''#3F98F2''\<rparr>]) =
     [''#3F98F2'', ''#FF5700'']"
proof -
  let ?rs = "[\<lparr>start = 100, end' = 500, subtype = js ''B'', color = ''#3F98F2''\<rparr>,
               \<lparr>start = 500, end' = 1000, subtype = js ''A1'', color = ''#FF5700''\<rparr>,
               \<lparr>start = 1000, end' = 1500, subtype = js ''B'', color = ''#3F98F2''\<rparr>]"
  have e: "legendData ?rs = [(js ''B'', ''#3F98F2''), (js ''A1'', ''#FF5700'')]"
    by (simp add: legendData_def subtypeMapAdd_def)
  from legend_first_occurrence [of ?rs "''white''"] e show ?thesis by simp
qed

section \<open>Properties of the main program\<close>

text \<open>
  The calls of \<open>drawToContext\<close> depend on the order of the array: sorting it moves the
  legend entries.  The second pass can repeat the first only if the first leaves the
  array as it found it.
\<close>

lemma legend_depends_on_array_order:
  "legendPass (sortedRegions
      [\<lparr>start = 500, end' = 1000, subtype = js ''A1'', color = ''#FF5700''\<rparr>,
       \<lparr>start = 100, end' = 500, subtype = js ''B'', color = ''#3F98F2''\<rparr>]) \<noteq>
   legendPass
      [\<lparr>start = 500, end' = 1000, subtype = js ''A1'', color = ''#FF5700''\<rparr>,
       \<lparr>start = 100, end' = 500, subtype = js ''B'', color = ''#3F98F2''\<rparr>]"
  by (simp add: legendPass_def legendData_def subtypeMapAdd_def sortedRegions_def
      drawLegendItem_def Let_def)

lemma issue_fields [simp]:
  "arrays (issue ctx ops w) = arrays w"
  "moduleVars (issue ctx ops w) = moduleVars w"
  "nextRef (issue ctx ops w) = nextRef w"
  by (simp_all add: issue_def split: option.splits)

lemma issue_canvases:
  "canvases w ctx = Some c \<Longrightarrow>
   canvases (issue ctx ops w) = (canvases w)(ctx \<mapsto> c\<lparr>calls := calls c @ ops\<rparr>)"
  by (simp add: issue_def)

lemma issue_allocated: "allocated w \<Longrightarrow> allocated (issue ctx ops w)"
  by (auto simp: allocated_def issue_def split: option.splits if_splits)

lemma calculateBreakpointsOn_frame:
  assumes al: "allocated w" and a: "arrays w a = Some rs"
  shows "\<exists>w'. calculateBreakpointsOn a w = (calculateBreakpoints rs, w') \<and>
           arrays w' a = Some rs \<and> (\<forall>r. r < nextRef w \<longrightarrow> arrays w' r = arrays w r) \<and>
           canvases w' = canvases w \<and> moduleVars w' = moduleVars w \<and>
           nextRef w \<le> nextRef w' \<and> allocated w'"
proof (cases "rs = []")
  case True
  with a al show ?thesis by (simp add: calculateBreakpointsOn_def calculateBreakpoints_def)
next
  case False
  from al a have lt: "a < nextRef w" by (auto simp: allocated_def)
  then have ne: "a \<noteq> nextRef w" by simp
  let ?w2 = "sortInPlace (nextRef w)
               (w\<lparr>arrays := (arrays w)(nextRef w \<mapsto> rs), nextRef := nextRef w + 1\<rparr>)"
  have w2: "?w2 = w\<lparr>arrays := (arrays w)(nextRef w \<mapsto> sortedRegions rs), nextRef := nextRef w + 1\<rparr>"
    by (simp add: sortInPlace_def)
  have c: "calculateBreakpointsOn a w = (calculateBreakpoints rs, ?w2)"
    using a False
    by (simp add: calculateBreakpointsOn_def calculateBreakpoints_def newArray_def sortInPlace_def Let_def)
  have "allocated ?w2" unfolding w2 using al by (auto simp: allocated_def less_Suc_eq)
  with c a ne show ?thesis unfolding w2 by auto
qed

lemma drawToContextOn_frame:
  assumes al: "allocated w" and c: "canvases w ctx = Some c" and a: "arrays w a = Some rs"
  shows "\<exists>w'. drawToContextOn ctx width height a w = Inr w' \<and>
           canvases w' = (canvases w)(ctx \<mapsto> c\<lparr>calls := calls c @ drawToContext width height rs\<rparr>) \<and>
           (\<forall>r. r < nextRef w \<longrightarrow> arrays w' r = arrays w r) \<and>
           moduleVars w' = moduleVars w \<and> nextRef w \<le> nextRef w' \<and> allocated w'"
proof -
  let ?o1 = "[SetFillStyle ''white'', FillRect 0 0 width height] @ concat (map drawGene GENE_MAP)"
  let ?w1 = "issue ctx ?o1 w"
  let ?w2 = "issue ctx (overlayPass rs) ?w1"
  let ?w3 = "issue ctx (namePass @ connectorPass) ?w2"
  have c3: "canvases ?w3 = (canvases w)(ctx \<mapsto>
      c\<lparr>calls := calls c @ ?o1 @ overlayPass rs @ namePass @ connectorPass\<rparr>)"
    using c by (simp add: issue_def)
  have al3: "allocated ?w3" using al by (intro issue_allocated)
  have a3: "arrays ?w3 a = Some rs" using a by simp
  from calculateBreakpointsOn_frame [OF al3 a3]
  obtain w4 where cb: "calculateBreakpointsOn a ?w3 = (calculateBreakpoints rs, w4)"
    and a4: "arrays w4 a = Some rs"
    and f4: "\<forall>r. r < nextRef w \<longrightarrow> arrays w4 r = arrays w r"
    and c4: "canvases w4 = canvases ?w3" and m4: "moduleVars w4 = moduleVars w"
    and n4: "nextRef w \<le> nextRef w4" and al4: "allocated w4"
    by auto
  let ?o5 = "[SetStrokeStyle ''#333333'', SetFont 11] @ concat (map drawBreakpoint (calculateBreakpoints rs))"
  let ?w5 = "issue ctx ?o5 w4"
  let ?w6 = "issue ctx axisPass ?w5"
  let ?w7 = "issue ctx (legendPass rs) ?w6"
  have a6: "arrays ?w6 a = Some rs" using a4 by simp
  have d: "drawToContextOn ctx width height a w = Inr ?w7"
    using c a cb a6 by (simp add: drawToContextOn_def Let_def del: issue_fields) 
  have c7: "canvases ?w7 = (canvases w)(ctx \<mapsto>
      c\<lparr>calls := calls c @ drawToContext width height rs\<rparr>)"
    using c4 c3 by (simp add: issue_def drawToContext_def breakpointPass_def)
  have al7: "allocated ?w7" using al4 by (intro issue_allocated)
  from d c7 f4 m4 n4 al7 show ?thesis by simp
qed


lemma renderPass_frame:
  assumes al: "allocated w" and a: "arrays w a = Some rs"
  shows "\<exists>w'. renderPass b a w = Inr (nextRef w, w') \<and>
           canvases w' = (canvases w)(nextRef w \<mapsto>
              \<lparr>backend = b, canvasWidth = 900, canvasHeight = 300,
                calls = drawToContext 900 300 rs\<rparr>) \<and>
           (\<forall>r. r < nextRef w \<longrightarrow> arrays w' r = arrays w r) \<and>
           moduleVars w' = moduleVars w \<and> nextRef w < nextRef w' \<and> allocated w'"
proof -
  let ?c = "\<lparr>backend = b, canvasWidth = 900, canvasHeight = 300, calls = []\<rparr>"
  let ?w1 = "w\<lparr>canvases := (canvases w)(nextRef w \<mapsto> ?c), nextRef := nextRef w + 1\<rparr>"
  have cc: "createCanvas (c_width RENDER_CONFIG) (c_height RENDER_CONFIG) b w = (nextRef w, ?w1)"
    by (simp add: createCanvas_def RENDER_CONFIG_def)
  have al1: "allocated ?w1" using al by (auto simp: allocated_def less_Suc_eq)
  have c1: "canvases ?w1 (nextRef w) = Some ?c" by simp
  have a1: "arrays ?w1 a = Some rs" using a by simp
  from drawToContextOn_frame [OF al1 c1 a1, of 900 300]
  obtain w' where d: "drawToContextOn (nextRef w) 900 300 a ?w1 = Inr w'"
    and c': "canvases w' = (canvases ?w1)(nextRef w \<mapsto> ?c\<lparr>calls := calls ?c @ drawToContext 900 300 rs\<rparr>)"
    and f': "\<forall>r. r < nextRef ?w1 \<longrightarrow> arrays w' r = arrays ?w1 r"
    and m': "moduleVars w' = moduleVars ?w1" and n': "nextRef ?w1 \<le> nextRef w'"
    and al': "allocated w'"
    by blast
  have r: "renderPass b a w = Inr (nextRef w, w')"
    unfolding renderPass_def cc using d by (simp add: RENDER_CONFIG_def)
  from r c' f' m' n' al' show ?thesis by auto
qed

lemma allocated_initWorld: "allocated initWorld"
  by (simp add: allocated_def initWorld_def)

lemma parseInputOn_reset:
  "moduleVars st = initRegistry \<Longrightarrow>
   parseInput initRegistry inputText = Inr (rs, out, reg) \<Longrightarrow>
   parseInputOn inputText st =
     Inr (nextRef st, out,
          st\<lparr>moduleVars := reg, arrays := (arrays st)(nextRef st \<mapsto> rs),
             nextRef := nextRef st + 1\<rparr>)"
  by (simp add: parseInputOn_def newArray_def)

lemma parseInputOn_reset_error:
  "moduleVars st = initRegistry \<Longrightarrow>
   parseInput initRegistry inputText = Inl e \<Longrightarrow> parseInputOn inputText st = Inl e"
  by (simp add: parseInputOn_def)

text \<open>
  Claim C9.  Take any state in which the module variables are reset, whatever arrays
  and contexts it already holds.  Whenever the \<open>try\<close> block finishes from it, the calls
  recorded on each context it made are those of \<open>drawToContext\<close> on the regions that
  \<open>parseInput\<close> returns for the text from the reset registry, in file order.  So two
  runs on the same text draw the same, and within a run the PNG context and the PDF
  context are two objects with the same calls.  The first pass leaves the array
  \<open>regions\<close> and the module variables as the parser left them, because
  \<open>calculateBreakpoints\<close> sorts a copy and \<open>drawToContext\<close> never calls \<open>getColor\<close>;
  the objects that existed before the run are untouched.  \<open>main\<close> is the run from the
  initial state.
\<close>

theorem render_passes_identical:
  "main png pdf inputText = mainFrom initWorld png pdf inputText \<and>
   allocated initWorld \<and> moduleVars initWorld = initRegistry \<and>
   (allocated st \<and> moduleVars st = initRegistry \<and>
    mainFrom st png pdf inputText = Inr (w, p, d) \<longrightarrow>
    (\<exists>rs out reg.
       parseInput initRegistry inputText = Inr (rs, out, reg) \<and> rs \<noteq> [] \<and>
       (p = None \<longleftrightarrow> png = None) \<and> (d = None \<longleftrightarrow> pdf = None) \<and>
       (\<forall>ctxPng. p = Some ctxPng \<longrightarrow>
          (\<exists>c. canvases w ctxPng = Some c \<and> backend c = ImageBackend \<and>
               calls c = drawToContext 900 300 rs)) \<and>
       (\<forall>ctxPdf. d = Some ctxPdf \<longrightarrow>
          (\<exists>c. canvases w ctxPdf = Some c \<and> backend c = PdfBackend \<and>
               calls c = drawToContext 900 300 rs)) \<and>
       (\<forall>ctxPng ctxPdf. p = Some ctxPng \<and> d = Some ctxPdf \<longrightarrow>
          ctxPng \<noteq> ctxPdf \<and>
          map_option calls (canvases w ctxPng) = map_option calls (canvases w ctxPdf)) \<and>
       arrays w (nextRef st) = Some rs \<and> moduleVars w = reg \<and>
       (\<forall>r. r < nextRef st \<longrightarrow> arrays w r = arrays st r \<and> canvases w r = canvases st r)))"
proof (intro conjI impI)
  show "main png pdf inputText = mainFrom initWorld png pdf inputText" by (simp add: main_def)
  show "allocated initWorld" by (rule allocated_initWorld)
  show "moduleVars initWorld = initRegistry" by (simp add: initWorld_def)
next
  assume asm: "allocated st \<and> moduleVars st = initRegistry \<and>
    mainFrom st png pdf inputText = Inr (w, p, d)"
  then have al: "allocated st" and mv: "moduleVars st = initRegistry"
    and m: "mainFrom st png pdf inputText = Inr (w, p, d)" by simp_all
  from m mv obtain rs out reg where pi: "parseInput initRegistry inputText = Inr (rs, out, reg)"
    by (cases "parseInput initRegistry inputText")
       (auto simp: mainFrom_def parseInputOn_reset_error)
  let ?a = "nextRef st"
  let ?w0 = "st\<lparr>moduleVars := reg, arrays := (arrays st)(?a \<mapsto> rs), nextRef := ?a + 1\<rparr>"
  note po = parseInputOn_reset [OF mv pi]
  from m po have ne: "rs \<noteq> []" by (auto simp: mainFrom_def split: if_splits)
  have al0: "allocated ?w0" using al by (auto simp: allocated_def less_Suc_eq)
  have a0: "arrays ?w0 ?a = Some rs" by simp
  have n0: "nextRef ?w0 = ?a + 1" by simp
  have main_eq: "mainFrom st png pdf inputText =
      (case (if png \<noteq> None
             then (case renderPass ImageBackend ?a ?w0 of
                     Inl e \<Rightarrow> Inl e
                   | Inr (ctxPng, w1) \<Rightarrow> Inr (Some ctxPng, w1))
             else Inr (None, ?w0)) of
         Inl e \<Rightarrow> Inl Exit1
       | Inr (ctxPng, w1) \<Rightarrow>
           (case (if pdf \<noteq> None
                  then (case renderPass PdfBackend ?a w1 of
                          Inl e \<Rightarrow> Inl e
                        | Inr (ctxPdf, w2) \<Rightarrow> Inr (Some ctxPdf, w2))
                  else Inr (None, w1)) of
              Inl e \<Rightarrow> Inl Exit1
            | Inr (ctxPdf, w2) \<Rightarrow> Inr (w2, ctxPng, ctxPdf)))"
    using ne by (simp add: mainFrom_def po)
  \<comment> \<open>the state after the PNG block\<close>
  obtain p1 w1 where s1:
      "(if png \<noteq> None
        then (case renderPass ImageBackend ?a ?w0 of
                Inl e \<Rightarrow> Inl e
              | Inr (ctxPng, w1) \<Rightarrow> Inr (Some ctxPng, w1))
        else Inr (None, ?w0)) = Inr (p1, w1)"
    and p1: "p1 = None \<longleftrightarrow> png = None"
    and c1: "\<forall>ctx. p1 = Some ctx \<longrightarrow> ctx < nextRef w1 \<and>
               canvases w1 ctx = Some \<lparr>backend = ImageBackend, canvasWidth = 900,
                 canvasHeight = 300, calls = drawToContext 900 300 rs\<rparr>"
    and a1: "arrays w1 ?a = Some rs" and m1: "moduleVars w1 = reg" and al1: "allocated w1"
    and k1: "\<forall>r. r < ?a \<longrightarrow> arrays w1 r = arrays st r \<and> canvases w1 r = canvases st r"
    and n1: "?a < nextRef w1"
  proof (cases "png = None")
    case True
    with al0 show ?thesis by (intro that [of None ?w0]) simp_all
  next
    case False
    from renderPass_frame [OF al0 a0, of ImageBackend]
    obtain w' where r: "renderPass ImageBackend ?a ?w0 = Inr (nextRef ?w0, w')"
      and c: "canvases w' = (canvases ?w0)(nextRef ?w0 \<mapsto>
              \<lparr>backend = ImageBackend, canvasWidth = 900, canvasHeight = 300,
                calls = drawToContext 900 300 rs\<rparr>)"
      and f: "\<forall>r. r < nextRef ?w0 \<longrightarrow> arrays w' r = arrays ?w0 r"
      and mv': "moduleVars w' = moduleVars ?w0" and n: "nextRef ?w0 < nextRef w'"
      and al': "allocated w'"
      by blast
    from f have "arrays w' ?a = Some rs" by simp
    moreover from f c have "\<forall>r. r < ?a \<longrightarrow> arrays w' r = arrays st r \<and> canvases w' r = canvases st r"
      by simp
    ultimately show ?thesis using False r c mv' n al'
      by (intro that [of "Some (nextRef ?w0)" w']) simp_all
  qed
  \<comment> \<open>the state after the PDF block\<close>
  obtain p2 w2 where s2:
      "(if pdf \<noteq> None
        then (case renderPass PdfBackend ?a w1 of
                Inl e \<Rightarrow> Inl e
              | Inr (ctxPdf, w2) \<Rightarrow> Inr (Some ctxPdf, w2))
        else Inr (None, w1)) = Inr (p2, w2)"
    and p2: "p2 = None \<longleftrightarrow> pdf = None"
    and c2: "\<forall>ctx. p2 = Some ctx \<longrightarrow> ctx = nextRef w1 \<and>
               canvases w2 ctx = Some \<lparr>backend = PdfBackend, canvasWidth = 900,
                 canvasHeight = 300, calls = drawToContext 900 300 rs\<rparr>"
    and k2: "\<forall>ctx. ctx < nextRef w1 \<longrightarrow> canvases w2 ctx = canvases w1 ctx"
    and f2: "\<forall>r. r < nextRef w1 \<longrightarrow> arrays w2 r = arrays w1 r"
    and m2: "moduleVars w2 = reg"
  proof (cases "pdf = None")
    case True
    with m1 show ?thesis by (intro that [of None w1]) simp_all
  next
    case False
    from renderPass_frame [OF al1 a1, of PdfBackend]
    obtain w' where r: "renderPass PdfBackend ?a w1 = Inr (nextRef w1, w')"
      and c: "canvases w' = (canvases w1)(nextRef w1 \<mapsto>
              \<lparr>backend = PdfBackend, canvasWidth = 900, canvasHeight = 300,
                calls = drawToContext 900 300 rs\<rparr>)"
      and f: "\<forall>r. r < nextRef w1 \<longrightarrow> arrays w' r = arrays w1 r"
      and mv': "moduleVars w' = moduleVars w1"
      by blast
    with False m1 show ?thesis
      by (intro that [of "Some (nextRef w1)" w']) simp_all
  qed
  from m main_eq s1 s2 have res: "w = w2" "p = p1" "d = p2" by simp_all
  have png: "\<forall>ctxPng. p = Some ctxPng \<longrightarrow>
        (\<exists>c. canvases w ctxPng = Some c \<and> backend c = ImageBackend \<and>
             calls c = drawToContext 900 300 rs)"
    using c1 k2 res by auto
  have pdf: "\<forall>ctxPdf. d = Some ctxPdf \<longrightarrow>
        (\<exists>c. canvases w ctxPdf = Some c \<and> backend c = PdfBackend \<and>
             calls c = drawToContext 900 300 rs)"
    using c2 res by auto
  have dist: "\<forall>ctxPng ctxPdf. p = Some ctxPng \<and> d = Some ctxPdf \<longrightarrow>
        ctxPng \<noteq> ctxPdf \<and>
        map_option calls (canvases w ctxPng) = map_option calls (canvases w ctxPdf)"
    using c1 c2 k2 res by auto
  have a2: "arrays w ?a = Some rs" using f2 n1 a1 res by simp
  have old: "\<forall>r. r < ?a \<longrightarrow> arrays w r = arrays st r \<and> canvases w r = canvases st r"
    using f2 k2 k1 n1 res by auto
  from pi ne p1 p2 png pdf dist a2 m2 old res
  show "\<exists>rs out reg.
       parseInput initRegistry inputText = Inr (rs, out, reg) \<and> rs \<noteq> [] \<and>
       (p = None \<longleftrightarrow> png = None) \<and> (d = None \<longleftrightarrow> pdf = None) \<and>
       (\<forall>ctxPng. p = Some ctxPng \<longrightarrow>
          (\<exists>c. canvases w ctxPng = Some c \<and> backend c = ImageBackend \<and>
               calls c = drawToContext 900 300 rs)) \<and>
       (\<forall>ctxPdf. d = Some ctxPdf \<longrightarrow>
          (\<exists>c. canvases w ctxPdf = Some c \<and> backend c = PdfBackend \<and>
               calls c = drawToContext 900 300 rs)) \<and>
       (\<forall>ctxPng ctxPdf. p = Some ctxPng \<and> d = Some ctxPdf \<longrightarrow>
          ctxPng \<noteq> ctxPdf \<and>
          map_option calls (canvases w ctxPng) = map_option calls (canvases w ctxPdf)) \<and>
       arrays w (nextRef st) = Some rs \<and> moduleVars w = reg \<and>
       (\<forall>r. r < nextRef st \<longrightarrow> arrays w r = arrays st r \<and> canvases w r = canvases st r)"
    by blast
qed

text \<open>
  Witness for C9: two regions given out of order.  Both contexts hold the same calls,
  the array \<open>regions\<close> (reference 0) is still in file order after both passes, and the
  sorted copy of the first pass is another object (reference 2).
\<close>

theorem render_passes_identical_witness:
  "\<exists>w. main (Some (js ''out.png'')) (Some (js ''out.pdf''))
          (js ''>seq1'' @ [0x0A] @ js ''500 1000 A1'' @ [0x0A] @ js ''100 500 B'') =
          Inr (w, Some 1, Some 3) \<and>
        map_option calls (canvases w 1) = map_option calls (canvases w 3) \<and>
        map_option calls (canvases w 1) =
          Some (drawToContext 900 300
                 [\<lparr>start = 500, end' = 1000, subtype = js ''A1'', color = ''#FF5700''\<rparr>,
                  \<lparr>start = 100, end' = 500, subtype = js ''B'', color = ''#3F98F2''\<rparr>]) \<and>
        arrays w 0 =
          Some [\<lparr>start = 500, end' = 1000, subtype = js ''A1'', color = ''#FF5700''\<rparr>,
                \<lparr>start = 100, end' = 500, subtype = js ''B'', color = ''#3F98F2''\<rparr>] \<and>
        arrays w 2 =
          Some [\<lparr>start = 100, end' = 500, subtype = js ''B'', color = ''#3F98F2''\<rparr>,
                \<lparr>start = 500, end' = 1000, subtype = js ''A1'', color = ''#FF5700''\<rparr>]"
proof -
  let ?text = "js ''>seq1'' @ [0x0A] @ js ''500 1000 A1'' @ [0x0A] @ js ''100 500 B''"
  let ?rs = "[\<lparr>start = 500, end' = 1000, subtype = js ''A1'', color = ''#FF5700''\<rparr>,
              \<lparr>start = 100, end' = 500, subtype = js ''B'', color = ''#3F98F2''\<rparr>]"
  have pi: "parseInput initRegistry ?text = Inr (?rs, [LogHeaderFound (js ''>seq1'')], initRegistry)"
    by (simp add: eval_defs)
  have "\<exists>w. main (Some (js ''out.png'')) (Some (js ''out.pdf'')) ?text = Inr (w, Some 1, Some 3) \<and>
          arrays w 2 = Some (rev ?rs)"
    unfolding main_def mainFrom_def parseInputOn_def initWorld_def world.simps pi
    by (simp add: renderPass_def createCanvas_def drawToContextOn_def issue_def
        calculateBreakpointsOn_def newArray_def sortInPlace_def sortedRegions_def Let_def)
  then obtain w where m: "main (Some (js ''out.png'')) (Some (js ''out.pdf'')) ?text =
      Inr (w, Some 1, Some 3)" and c: "arrays w 2 = Some (rev ?rs)"
    by blast
  from m have m': "mainFrom initWorld (Some (js ''out.png'')) (Some (js ''out.pdf'')) ?text =
      Inr (w, Some 1, Some 3)"
    by (simp only: main_def)
  from render_passes_identical
    [of "Some (js ''out.png'')" "Some (js ''out.pdf'')" ?text initWorld w "Some 1" "Some 3"] m' pi
  have "map_option calls (canvases w 1) = map_option calls (canvases w 3) \<and>
        map_option calls (canvases w 1) = Some (drawToContext 900 300 ?rs) \<and>
        arrays w 0 = Some ?rs"
    by (auto simp: initWorld_def)
  with m c show ?thesis unfolding rev.simps append.simps by blast
qed

end
